theory Spec2Isabelle
  imports Complex_Main "HOL-Library.Multiset"
begin

section \<open>Data model of the map editor (src/ts/map.ts)\<close>

text \<open>
  The editor is one object of class \<open>Map\<close> together with the tile elements it creates in
  the document. A tile element is identified by its \<open>data-row\<close> and \<open>data-col\<close>
  attributes: \<open>init\<close> writes them once, as the decimal text of the loop counters, nothing
  changes them afterwards, and every later read goes through \<open>parseInt\<close>. The model keeps
  both attributes as integers, and a reference to a tile element (an entry of
  \<open>selectedTiles\<close>, \<open>tileUnderCoursor\<close>) is the pair (row, column) of that element.

  Of a tile's inline style the code touches two properties, \<open>background\<close> and
  \<open>backgroundPosition\<close>; of its class list, the class \<open>selected\<close>. CSS values are kept
  as opaque strings, each taken to be a value the browser accepts; the empty string is
  an unset property. The field \<open>background\<close> holds what was last assigned to the
  shorthand, \<open>backgroundPosition\<close> the current value of the longhand.

  A handler that can throw returns a sum, \<open>Inl\<close> the error. The elements that only
  show state (the selection indicator, the context menu, the download link) are left out.
\<close>

type_synonym tile_ref = "int \<times> int"

record tile =
  data_row :: int
  data_col :: int
  background :: string
  backgroundPosition :: string
  selected :: bool

text \<open>The object literals \<open>{ row, col, bg, bgPos }\<close> of the clipboard and of the history.\<close>

record tileData =
  row :: int
  col :: int
  bg :: string
  bgPos :: string

text \<open>The interface \<open>ExportTile\<close> of types/index.d.ts: coordinates are text.\<close>

record ExportTile =
  et_id :: nat
  et_bgPosition :: string
  et_col :: string
  et_row :: string

type_synonym Position2D = "real \<times> real"

record rect =
  left :: real
  right :: real
  top :: real
  bottom :: real

datatype error = TypeError | SyntaxError

record editor =
  tiles :: "tile list"
  mapColsCount :: int
  mapRowsCount :: int
  sprites :: string
  selectedTiles :: "tile_ref list"
  mouseDown :: bool
  ctrlDown :: bool
  mousePosition :: Position2D
  dragStartPosition :: "Position2D option"
  dragEndPosition :: "Position2D option"
  isAutoEnabled :: bool
  coppiedTiles :: "tile_ref list"
  tileUnderCoursor :: "tile_ref option"
  beforePasteState :: "tile list"
  coppiedTileData :: "tileData list"
  history :: "tileData list list"
  currentHistoryIndex :: int

subsection \<open>Tile elements, their style and the selectors\<close>

definition tileCoords :: "tile \<Rightarrow> tile_ref" where
  "tileCoords t = (data_row t, data_col t)"

text \<open>
  \<open>tile.style.background = v\<close>: \<open>background\<close> is the CSS shorthand, so the assignment
  also resets the longhand \<open>background-position\<close>, to its initial value \<open>0% 0%\<close>, or
  removes it together with the shorthand when \<open>v\<close> is empty.
\<close>

definition set_background :: "string \<Rightarrow> tile \<Rightarrow> tile" where
  "set_background v t =
     t\<lparr>background := v, backgroundPosition := (if v = [] then [] else ''0% 0%'')\<rparr>"

definition set_backgroundPosition :: "string \<Rightarrow> tile \<Rightarrow> tile" where
  "set_backgroundPosition v t = t\<lparr>backgroundPosition := v\<rparr>"

definition classList_add_selected :: "tile \<Rightarrow> tile" where
  "classList_add_selected t = t\<lparr>selected := True\<rparr>"

definition classList_remove_selected :: "tile \<Rightarrow> tile" where
  "classList_remove_selected t = t\<lparr>selected := False\<rparr>"

text \<open>
  \<open>document.querySelector('.tile[data-row="r"][data-col="c"]')\<close>: the first tile, in
  document order, with these attributes, or null.
\<close>

definition querySelector :: "tile_ref \<Rightarrow> tile list \<Rightarrow> tile option" where
  "querySelector rc ts = find (\<lambda>t. tileCoords t = rc) ts"

text \<open>A write through a reference to the tile element at (row, column).\<close>

definition updateTile :: "tile_ref \<Rightarrow> (tile \<Rightarrow> tile) \<Rightarrow> tile list \<Rightarrow> tile list" where
  "updateTile rc f ts = map (\<lambda>t. if tileCoords t = rc then f t else t) ts"

subsection \<open>Construction\<close>

text \<open>
  The second loop nest of \<open>init\<close>: one tile per (i, j), rows outermost, appended to the
  map container in that order. A new element has no inline style and only the class
  \<open>tile\<close>.
\<close>

definition createTile :: "tile_ref \<Rightarrow> tile" where
  "createTile rc =
     \<lparr>data_row = fst rc, data_col = snd rc, background = [], backgroundPosition = [],
      selected = False\<rparr>"

definition gridCoords :: "int \<Rightarrow> int \<Rightarrow> tile_ref list" where
  "gridCoords rowsCount colsCount = List.product [0..rowsCount - 1] [0..colsCount - 1]"

text \<open>
  The field initialisers of the class followed by \<open>init\<close>; the grid dimensions and the
  sprite sheet path are the class's constants, taken as parameters here.
\<close>

definition init :: "int \<Rightarrow> int \<Rightarrow> string \<Rightarrow> editor" where
  "init rowsCount colsCount sheet =
     \<lparr>tiles = map createTile (gridCoords rowsCount colsCount),
      mapColsCount = colsCount,
      mapRowsCount = rowsCount,
      sprites = sheet,
      selectedTiles = [],
      mouseDown = False,
      ctrlDown = False,
      mousePosition = (0, 0),
      dragStartPosition = None,
      dragEndPosition = None,
      isAutoEnabled = False,
      coppiedTiles = [],
      tileUnderCoursor = None,
      beforePasteState = [],
      coppiedTileData = [],
      history = [],
      currentHistoryIndex = 0\<rparr>"

text \<open>\<open>new Map()\<close> with the constants of the class: 50 rows of 100 columns.\<close>

definition new_Map :: "string \<Rightarrow> editor" where
  "new_Map sheet = init 50 100 sheet"

subsection \<open>History\<close>

text \<open>\<open>xs.slice(0, e)\<close>: a negative end counts from the end of the array.\<close>

definition slice0 :: "'a list \<Rightarrow> int \<Rightarrow> 'a list" where
  "slice0 xs e = (if e < 0 then take (nat (int (length xs) + e)) xs else take (nat e) xs)"

definition tileState :: "tile \<Rightarrow> tileData" where
  "tileState t =
     \<lparr>row = data_row t, col = data_col t, bg = background t, bgPos = backgroundPosition t\<rparr>"

definition addToHistory :: "editor \<Rightarrow> editor" where
  "addToHistory s =
     (let h = slice0 (history s) (currentHistoryIndex s + 1) @ [map tileState (tiles s)]
      in s\<lparr>history := h, currentHistoryIndex := int (length h) - 1\<rparr>)"

text \<open>The body of the \<open>forEach\<close> of \<open>restoreFromHistory\<close> (and of \<open>paste\<close>).\<close>

definition applyTileData :: "tile_ref \<Rightarrow> tileData \<Rightarrow> tile list \<Rightarrow> tile list" where
  "applyTileData rc d ts =
     (case querySelector rc ts of
        None \<Rightarrow> ts
      | Some t \<Rightarrow>
          updateTile (tileCoords t)
            (\<lambda>u. set_backgroundPosition (bgPos d) (set_background (bg d) u)) ts)"

text \<open>
  \<open>this.history[index]\<close> is undefined outside the array, and \<open>state.forEach\<close> then
  throws a TypeError.
\<close>

definition restoreFromHistory :: "int \<Rightarrow> editor \<Rightarrow> error + editor" where
  "restoreFromHistory index s =
     (if 0 \<le> index \<and> index < int (length (history s))
      then Inr (s\<lparr>tiles := fold (\<lambda>d. applyTileData (row d, col d) d)
                               (history s ! nat index) (tiles s)\<rparr>)
      else Inl TypeError)"

definition undo :: "editor \<Rightarrow> error + editor" where
  "undo s =
     (if currentHistoryIndex s \<le> 0 then Inr s
      else restoreFromHistory (currentHistoryIndex s - 1)
             (s\<lparr>currentHistoryIndex := currentHistoryIndex s - 1\<rparr>))"

definition redo :: "editor \<Rightarrow> error + editor" where
  "redo s =
     (if currentHistoryIndex s \<ge> int (length (history s)) - 1 then Inr s
      else restoreFromHistory (currentHistoryIndex s + 1)
             (s\<lparr>currentHistoryIndex := currentHistoryIndex s + 1\<rparr>))"

subsection \<open>Selection by dragging\<close>

text \<open>
  Where a tile lies on the screen is decided by the browser
  (\<open>getBoundingClientRect\<close>), so the handlers take the layout as an argument: for each
  tile, its rectangle relative to the map container, which is what \<open>selectTiles\<close>
  computes as \<open>tilePosition\<close>. Pointer positions are relative to the container as well,
  as the \<open>mousemove\<close> handler stores them.
\<close>

definition selectionBounds :: "Position2D \<Rightarrow> Position2D \<Rightarrow> rect" where
  "selectionBounds a b =
     \<lparr>left = min (fst a) (fst b), right = max (fst a) (fst b),
      top = min (snd a) (snd b), bottom = max (snd a) (snd b)\<rparr>"

definition intersects :: "rect \<Rightarrow> rect \<Rightarrow> bool" where
  "intersects tilePosition sb \<longleftrightarrow>
     left tilePosition < right sb \<and> right tilePosition > left sb \<and>
     top tilePosition < bottom sb \<and> bottom tilePosition > top sb"

text \<open>
  The \<open>tiles.forEach\<close> of \<open>selectTiles\<close>: each tile is visited once, in document order;
  the visit changes the class of that tile and may push it onto \<open>selectedTiles\<close>, which
  later visits then see.
\<close>

fun selectLoop ::
  "(tile_ref \<Rightarrow> rect) \<Rightarrow> rect \<Rightarrow> bool \<Rightarrow> tile list \<Rightarrow> tile_ref list \<Rightarrow> tile list \<times> tile_ref list"
where
  "selectLoop layout sb selecting [] sel = ([], sel)"
| "selectLoop layout sb selecting (t # ts) sel =
     (let t1 = (if tileCoords t \<notin> set sel \<and> selected t then classList_remove_selected t else t);
          hit = intersects (layout (tileCoords t)) sb;
          t2 = (if hit then classList_add_selected t1 else t1);
          sel2 = (if hit \<and> \<not> selecting then sel @ [tileCoords t] else sel);
          r = selectLoop layout sb selecting ts sel2
      in (t2 # fst r, snd r))"

definition selectTiles :: "(tile_ref \<Rightarrow> rect) \<Rightarrow> bool \<Rightarrow> editor \<Rightarrow> editor" where
  "selectTiles layout selecting s =
     (let s1 = (if selecting then s\<lparr>dragEndPosition := Some (mousePosition s)\<rparr> else s)
      in case dragStartPosition s1 of
           None \<Rightarrow> s1
         | Some a \<Rightarrow>
             (case dragEndPosition s1 of
                None \<Rightarrow> s1
              | Some b \<Rightarrow>
                  (let s2 = (if \<not> ctrlDown s1 then s1\<lparr>selectedTiles := []\<rparr> else s1);
                       r = selectLoop layout (selectionBounds a b) selecting
                             (tiles s2) (selectedTiles s2)
                   in s2\<lparr>tiles := fst r, selectedTiles := snd r\<rparr>)))"

text \<open>The handlers that \<open>bindEvents\<close> attaches to the map container.\<close>

definition mousedown :: "editor \<Rightarrow> editor" where
  "mousedown s =
     s\<lparr>tiles := map (\<lambda>t. if tileCoords t \<notin> set (selectedTiles s) \<and> selected t
                          then classList_remove_selected t else t) (tiles s),
       selectedTiles := (if \<not> ctrlDown s then [] else selectedTiles s),
       dragStartPosition := Some (mousePosition s),
       mouseDown := True\<rparr>"

text \<open>
  With the button held, the handler reads \<open>this.dragStartPosition.x\<close> to place the
  selection indicator (an element the model leaves out); on null that read throws.
\<close>

definition mousemove :: "(tile_ref \<Rightarrow> rect) \<Rightarrow> Position2D \<Rightarrow> editor \<Rightarrow> error + editor" where
  "mousemove layout p s =
     (let s1 = s\<lparr>mousePosition := p\<rparr>
      in if mouseDown s1
         then (case dragStartPosition s1 of
                 None \<Rightarrow> Inl TypeError
               | Some a \<Rightarrow> Inr (selectTiles layout True s1))
         else Inr s1)"

definition mouseup :: "(tile_ref \<Rightarrow> rect) \<Rightarrow> editor \<Rightarrow> editor" where
  "mouseup layout s =
     selectTiles layout False
       (s\<lparr>dragEndPosition := Some (mousePosition s), mouseDown := False\<rparr>)"

text \<open>The \<open>mouseover\<close> listener that \<open>init\<close> gives the tile at (row, column).\<close>

definition mouseover :: "tile_ref \<Rightarrow> editor \<Rightarrow> editor" where
  "mouseover rc s =
     (let s1 = s\<lparr>tileUnderCoursor := Some rc\<rparr>
      in if beforePasteState s1 = [] then s1
         else (case find (\<lambda>t. tileCoords t = rc) (beforePasteState s1) of
                 None \<Rightarrow> s1
               | Some m \<Rightarrow> s1\<lparr>tiles := updateTile rc (set_background (background m)) (tiles s1)\<rparr>))"

definition autoCheckbox_change :: "bool \<Rightarrow> editor \<Rightarrow> editor" where
  "autoCheckbox_change checked s = s\<lparr>isAutoEnabled := checked\<rparr>"

text \<open>The last branch of the \<open>keydown\<close> handler, and the \<open>keyup\<close> handler.\<close>

definition keydown_modifier :: "editor \<Rightarrow> editor" where
  "keydown_modifier s = s\<lparr>ctrlDown := True\<rparr>"

definition keyup :: "bool \<Rightarrow> bool \<Rightarrow> editor \<Rightarrow> editor" where
  "keyup metaKey ctrlKey s = (if \<not> metaKey \<or> \<not> ctrlKey then s\<lparr>ctrlDown := False\<rparr> else s)"

subsection \<open>Drawing and auto-advance\<close>

definition compareTiles :: "tile_ref \<Rightarrow> tile_ref \<Rightarrow> int" where
  "compareTiles a b =
     (let rowA = fst a; colA = snd a; rowB = fst b; colB = snd b
      in if rowA < rowB then - 1
         else if rowA > rowB then 1
         else if colA < colB then - 1
         else if colA > colB then 1
         else 0)"

text \<open>\<open>Array.prototype.sort\<close> with a comparator: a stable sort, here by insertion.\<close>

fun insertBy :: "('a \<Rightarrow> 'a \<Rightarrow> int) \<Rightarrow> 'a \<Rightarrow> 'a list \<Rightarrow> 'a list" where
  "insertBy cmp a [] = [a]"
| "insertBy cmp a (b # bs) = (if cmp a b \<le> 0 then a # b # bs else b # insertBy cmp a bs)"

fun sortBy :: "('a \<Rightarrow> 'a \<Rightarrow> int) \<Rightarrow> 'a list \<Rightarrow> 'a list" where
  "sortBy cmp [] = []"
| "sortBy cmp (a # as) = insertBy cmp a (sortBy cmp as)"

definition url :: "string \<Rightarrow> string" where
  "url sheet = ''url('' @ sheet @ '')''"

text \<open>
  \<open>this.selectedTiles[this.selectedTiles.length - 1]\<close> is undefined for an empty array,
  and \<open>newTile\<close> is null when the selector matches nothing; using either throws.
\<close>

definition selectNextTile :: "editor \<Rightarrow> error + editor" where
  "selectNextTile s =
     (case selectedTiles s of
        [] \<Rightarrow> Inl TypeError
      | _ # _ \<Rightarrow>
          (let lastTile = last (selectedTiles s);
               lastCol = snd lastTile;
               lastRow = fst lastTile;
               newTile = (if lastCol \<ge> mapColsCount s - 1
                          then querySelector (lastRow + 1, 0) (tiles s)
                          else querySelector (lastRow, lastCol + 1) (tiles s));
               s1 = s\<lparr>selectedTiles := []\<rparr>
           in if \<not> (lastCol \<ge> mapColsCount s - 1 \<and> lastRow \<ge> mapRowsCount s - 1)
              then (case newTile of
                      None \<Rightarrow> Inl TypeError
                    | Some t \<Rightarrow>
                        Inr (s1\<lparr>tiles := updateTile (tileCoords t) classList_add_selected (tiles s1),
                                selectedTiles := [tileCoords t]\<rparr>))
              else Inr s1))"

definition drawTile :: "string \<Rightarrow> string \<Rightarrow> tile \<Rightarrow> tile" where
  "drawTile sheet sprite t =
     classList_remove_selected (set_backgroundPosition sprite (set_background (url sheet) t))"

definition drawMap :: "string \<Rightarrow> editor \<Rightarrow> error + editor" where
  "drawMap sprite s =
     (if int (length (selectedTiles s)) \<le> 0 then Inr s
      else
        (let sorted = sortBy compareTiles (selectedTiles s);
             s1 = s\<lparr>selectedTiles := sorted,
                    tiles := fold (\<lambda>rc. updateTile rc (drawTile (sprites s) sprite))
                               sorted (tiles s)\<rparr>
         in if isAutoEnabled s1
            then (case selectNextTile s1 of
                    Inl e \<Rightarrow> Inl e
                  | Inr s2 \<Rightarrow> Inr (addToHistory s2))
            else Inr (addToHistory (s1\<lparr>selectedTiles := []\<rparr>))))"

text \<open>The \<open>Delete\<close> branch of the \<open>keydown\<close> handler.\<close>

definition keydown_Delete :: "editor \<Rightarrow> editor" where
  "keydown_Delete s =
     addToHistory
       (s\<lparr>tiles := fold (\<lambda>rc. updateTile rc
                            (\<lambda>t. classList_remove_selected (set_background ''transparent'' t)))
                      (selectedTiles s) (tiles s),
          selectedTiles := []\<rparr>)"

subsection \<open>Sprite palette\<close>

text \<open>Decimal text of a number, as \<open>toString\<close> and template literals give it.\<close>

fun digits :: "nat \<Rightarrow> string" where
  "digits n =
     (if n < 10 then [char_of (48 + n)] else digits (n div 10) @ [char_of (48 + n mod 10)])"

declare digits.simps [simp del]

definition toString :: "int \<Rightarrow> string" where
  "toString i = (if i < 0 then CHR ''-'' # digits (nat (- i)) else digits (nat i))"

definition spriteBorderSize :: int where
  "spriteBorderSize = 1"

definition spriteSize :: int where
  "spriteSize = 47"

definition spritePosition :: "int \<Rightarrow> int \<Rightarrow> string" where
  "spritePosition i j =
     ''-'' @ toString (spriteBorderSize * (j + 1) + spriteSize * j) @ ''px -'' @
     toString (spriteBorderSize * (i + 1) + spriteSize * i) @ ''px''"

text \<open>The \<open>onclick\<close> of the palette entry in row i, column j of the sprite sheet.\<close>

definition sprite_onclick :: "int \<Rightarrow> int \<Rightarrow> editor \<Rightarrow> error + editor" where
  "sprite_onclick i j s = drawMap (spritePosition i j) s"

subsection \<open>Export and import\<close>

text \<open>
  Modelled from the spec: the stylesheet main.css is not among the sources, so what
  \<open>getComputedStyle(tile).backgroundPosition\<close> gives for a tile whose inline style
  sets no position is taken from the spec's file format: \<open>0% 0%\<close>, the initial value of
  the property. An inline position is its own computed value.
\<close>

definition computedBackgroundPosition :: "tile \<Rightarrow> string" where
  "computedBackgroundPosition t =
     (if backgroundPosition t = [] then ''0% 0%'' else backgroundPosition t)"

definition createMapJSON :: "editor \<Rightarrow> ExportTile list" where
  "createMapJSON s =
     map (\<lambda>(index, t).
            \<lparr>et_id = index, et_bgPosition = computedBackgroundPosition t,
             et_col = toString (data_col t), et_row = toString (data_row t)\<rparr>)
       (enumerate 0 (tiles s))"

text \<open>
  \<open>document.querySelector\<close> on the text of a selector. \<open>loadMapFromFile\<close> builds its
  selector from the column and row text of a record as it stands in the file, and what
  the browser makes of that text is not in the sources: the text may hold an escape
  sequence, which names a character, or a quote, which ends the attribute value and
  leaves the rest of the text to be read as more of the selector. So the selector engine
  is a parameter of the import. Given the selector and the tiles of the document it
  throws a SyntaxError (\<open>Inl\<close>), finds the first tile that matches, or finds no tile
  (\<open>None\<close>: the result is \<open>null\<close>, or an element that is not a tile, whose style is no
  part of the state).
\<close>

type_synonym selector_engine = "string \<Rightarrow> tile list \<Rightarrow> error + tile option"

text \<open>The template literal of \<open>loadMapFromFile\<close>; the character 0x22 is the double quote.\<close>

definition tileSelector :: "string \<Rightarrow> string \<Rightarrow> string" where
  "tileSelector c r =
     ''.tile[data-col='' @ [CHR 0x22] @ c @ [CHR 0x22] @
     ''][data-row='' @ [CHR 0x22] @ r @ [CHR 0x22] @ '']''"

text \<open>
  The callback of \<open>mapData.forEach\<close> for one record: it returns the tiles as they are
  after the record, or throws what \<open>querySelector\<close> throws.
\<close>

definition importTile ::
  "selector_engine \<Rightarrow> string \<Rightarrow> ExportTile \<Rightarrow> tile list \<Rightarrow> error + tile list" where
  "importTile engine sheet tileData ts =
     (case engine (tileSelector (et_col tileData) (et_row tileData)) ts of
        Inl e \<Rightarrow> Inl e
      | Inr None \<Rightarrow> Inr ts
      | Inr (Some t) \<Rightarrow>
          if et_bgPosition tileData \<noteq> ''0% 0%''
          then Inr (updateTile (tileCoords t)
                      (\<lambda>u. set_backgroundPosition (et_bgPosition tileData)
                              (set_background (url sheet) u)) ts)
          else Inr ts)"

text \<open>
  \<open>mapData.forEach\<close>: the records in order. When the callback throws, the loop ends
  there: the records before have been applied, the records after never are. The result
  holds the exception, if one was thrown, and the tiles as they are then.
\<close>

fun forEach_importTile ::
  "selector_engine \<Rightarrow> string \<Rightarrow> ExportTile list \<Rightarrow> tile list \<Rightarrow> error option \<times> tile list" where
  "forEach_importTile engine sheet [] ts = (None, ts)"
| "forEach_importTile engine sheet (tileData # rest) ts =
     (case importTile engine sheet tileData ts of
        Inl e \<Rightarrow> (Some e, ts)
      | Inr ts' \<Rightarrow> forEach_importTile engine sheet rest ts')"

text \<open>
  The \<open>onload\<close> callback of \<open>loadMapFromFile\<close>, given the parsed array: the exception
  it ends with, if any, and the editor it leaves.
\<close>

definition loadMapFromFile ::
  "selector_engine \<Rightarrow> ExportTile list \<Rightarrow> editor \<Rightarrow> error option \<times> editor" where
  "loadMapFromFile engine mapData s =
     (case forEach_importTile engine (sprites s) mapData (tiles s) of
        (e, ts) \<Rightarrow> (e, s\<lparr>tiles := ts\<rparr>))"

subsection \<open>Clipboard\<close>

text \<open>
  Reading through a reference. Every reference the editor holds is to an element of the
  document; a reference to none reads as an element that was only just created.
\<close>

definition deref :: "tile_ref \<Rightarrow> tile list \<Rightarrow> tile" where
  "deref rc ts = (case querySelector rc ts of None \<Rightarrow> createTile rc | Some t \<Rightarrow> t)"

definition copySelected :: "editor \<Rightarrow> editor" where
  "copySelected s =
     s\<lparr>coppiedTiles := selectedTiles s,
       coppiedTileData :=
         map (\<lambda>rc. \<lparr>row = fst rc, col = snd rc, bg = background (deref rc (tiles s)),
                    bgPos = backgroundPosition (deref rc (tiles s))\<rparr>) (selectedTiles s),
       tiles := fold (\<lambda>rc. updateTile rc classList_remove_selected) (selectedTiles s) (tiles s)\<rparr>"

definition cutSelected :: "editor \<Rightarrow> editor" where
  "cutSelected s =
     (let s1 = copySelected s
      in addToHistory
           (s1\<lparr>tiles := fold (\<lambda>rc. updateTile rc (set_background ''transparent''))
                          (selectedTiles s1) (tiles s1)\<rparr>))"

definition paste :: "editor \<Rightarrow> editor" where
  "paste s =
     (if coppiedTileData s = [] then s
      else
        (case tileUnderCoursor s of
           None \<Rightarrow> s
         | Some anchorTile \<Rightarrow>
             (let anchorRow = fst anchorTile;
                  anchorCol = snd anchorTile;
                  refRow = row (hd (coppiedTileData s));
                  refCol = col (hd (coppiedTileData s))
              in addToHistory
                   (s\<lparr>tiles := fold (\<lambda>d. applyTileData
                                           (anchorRow + (row d - refRow),
                                            anchorCol + (col d - refCol)) d)
                                  (coppiedTileData s) (tiles s)\<rparr>))))"

section \<open>Predicates used by the properties\<close>

text \<open>
  The cursor of the history: either nothing was committed yet and the cursor has its
  initial value, or the cursor is an index of the array.
\<close>

definition historyInv :: "editor \<Rightarrow> bool" where
  "historyInv s \<longleftrightarrow>
     (history s = [] \<and> currentHistoryIndex s = 0) \<or>
     (0 \<le> currentHistoryIndex s \<and> currentHistoryIndex s < int (length (history s)))"

text \<open>The cursor as the spec states it: an index of the history whenever there is one.\<close>

definition cursorValid :: "editor \<Rightarrow> bool" where
  "cursorValid s \<longleftrightarrow>
     (history s \<noteq> [] \<longrightarrow>
        0 \<le> currentHistoryIndex s \<and> currentHistoryIndex s \<le> int (length (history s)) - 1)"

text \<open>What \<open>restoreFromHistory\<close> and \<open>paste\<close> write onto a tile, as one function.\<close>

definition setStyle :: "tileData \<Rightarrow> tile \<Rightarrow> tile" where
  "setStyle d u = set_backgroundPosition (bgPos d) (set_background (bg d) u)"

text \<open>
  All entries of a list applied to one tile, in order: an entry writes the tile when its
  target \<open>k d\<close> is the tile.
\<close>

definition applyAll :: "(tileData \<Rightarrow> tile_ref) \<Rightarrow> tileData list \<Rightarrow> tile \<Rightarrow> tile" where
  "applyAll k ds t = fold (\<lambda>d u. if tileCoords u = k d then setStyle d u else u) ds t"

text \<open>
  A snapshot of this grid: one entry per tile, in document order, and no two tiles share
  their coordinates.
\<close>

definition gridSnapshot :: "tile list \<Rightarrow> tileData list \<Rightarrow> bool" where
  "gridSnapshot ts snap \<longleftrightarrow>
     distinct (map tileCoords ts) \<and> map (\<lambda>d. (row d, col d)) snap = map tileCoords ts"

text \<open>
  A layout to run concrete drags on: every tile is a square of 10 by 10 pixels, the tile
  at (row, column) starting 10 * column pixels from the left and 10 * row from the top of
  the map container.
\<close>

definition squareLayout :: "tile_ref \<Rightarrow> rect" where
  "squareLayout rc =
     \<lparr>left = 10 * of_int (snd rc), right = 10 * of_int (snd rc) + 10,
      top = 10 * of_int (fst rc), bottom = 10 * of_int (fst rc) + 10\<rparr>"

text \<open>The tile at these coordinates intersects the drag rectangle.\<close>

definition hitBy :: "(tile_ref \<Rightarrow> rect) \<Rightarrow> rect \<Rightarrow> tile_ref \<Rightarrow> bool" where
  "hitBy layout sb rc \<longleftrightarrow> intersects (layout rc) sb"

text \<open>
  The invariant of the selection set in the spec: a tile carries the class \<open>selected\<close>
  exactly when it is in \<open>selectedTiles\<close>.
\<close>

definition markerIffSelected :: "editor \<Rightarrow> bool" where
  "markerIffSelected s \<longleftrightarrow>
     (\<forall>t \<in> set (tiles s). selected t \<longleftrightarrow> tileCoords t \<in> set (selectedTiles s))"

text \<open>
  What one visit of \<open>selectLoop\<close> does to the class of the tile it visits, \<open>sel\<close>
  being the selection when the loop starts.
\<close>

definition selectVisit :: "(tile_ref \<Rightarrow> rect) \<Rightarrow> rect \<Rightarrow> tile_ref list \<Rightarrow> tile \<Rightarrow> tile" where
  "selectVisit layout sb sel t =
     (let t1 = (if tileCoords t \<notin> set sel \<and> selected t then classList_remove_selected t else t)
      in if intersects (layout (tileCoords t)) sb then classList_add_selected t1 else t1)"

text \<open>
  A click at a point of the map container, under \<open>squareLayout\<close>: the pointer moves
  there with no button held, so that \<open>mousemove\<close> only stores the position; then
  pointer-down and pointer-up.
\<close>

definition clickAt :: "Position2D \<Rightarrow> editor \<Rightarrow> editor" where
  "clickAt p s = mouseup squareLayout (mousedown (s\<lparr>mousePosition := p\<rparr>))"

text \<open>One half of the invariant, which also holds during a drag.\<close>

definition membersMarked :: "editor \<Rightarrow> bool" where
  "membersMarked s \<longleftrightarrow>
     (\<forall>t \<in> set (tiles s). tileCoords t \<in> set (selectedTiles s) \<longrightarrow> selected t)"

text \<open>
  The spec's "clear the sprite reference" of a tile: the tile shows no sprite any more.
\<close>

definition clearSprite :: "tile \<Rightarrow> tile" where
  "clearSprite t = set_background ''transparent'' t"

text \<open>
  Cut in the words of the spec: copy; then clear the sprite reference of every tile that
  was selected when cut was invoked; then commit one snapshot.
\<close>

definition cutSelected_spec :: "editor \<Rightarrow> editor" where
  "cutSelected_spec s =
     (let copied = copySelected s;
          cleared = copied\<lparr>tiles := map (\<lambda>t. if tileCoords t \<in> set (selectedTiles s)
                                               then clearSprite t else t) (tiles copied)\<rparr>
      in addToHistory cleared)"

text \<open>Row-major order of cells: by row, then by column.\<close>

definition rowMajorLe :: "tile_ref \<Rightarrow> tile_ref \<Rightarrow> bool" where
  "rowMajorLe a b \<longleftrightarrow> fst a < fst b \<or> (fst a = fst b \<and> snd a \<le> snd b)"

text \<open>The cell after a cell in row-major order, if the grid has one.\<close>

definition nextCell :: "int \<Rightarrow> int \<Rightarrow> tile_ref \<Rightarrow> tile_ref list" where
  "nextCell rowsCount colsCount rc =
     (if fst rc = rowsCount - 1 \<and> snd rc = colsCount - 1 then []
      else if snd rc = colsCount - 1 then [(fst rc + 1, 0)]
      else [(fst rc, snd rc + 1)])"

text \<open>
  The tiles are those \<open>init\<close> creates for the editor's dimensions, in its order, and
  every selected tile is one of them.
\<close>

definition wellFormed :: "editor \<Rightarrow> bool" where
  "wellFormed s \<longleftrightarrow>
     map tileCoords (tiles s) = gridCoords (mapRowsCount s) (mapColsCount s) \<and>
     set (selectedTiles s) \<subseteq> set (gridCoords (mapRowsCount s) (mapColsCount s))"

text \<open>
  The cell a clipboard entry is pasted to: the anchor moved by the entry's offset from the
  first entry of the clipboard.
\<close>

definition pasteTarget :: "tile_ref \<Rightarrow> tileData list \<Rightarrow> tileData \<Rightarrow> tile_ref" where
  "pasteTarget anchor ds d =
     (fst anchor + (row d - row (hd ds)), snd anchor + (col d - col (hd ds)))"

text \<open>Entries of a clipboard that were captured from the same tile carry the same style.\<close>

definition clipboardFunctional :: "tileData list \<Rightarrow> bool" where
  "clipboardFunctional ds \<longleftrightarrow>
     (\<forall>d \<in> set ds. \<forall>e \<in> set ds.
        row d = row e \<and> col d = col e \<longrightarrow> bg d = bg e \<and> bgPos d = bgPos e)"

text \<open>Reading decimal text back, as \<open>parseInt\<close> does on the digits it is given.\<close>

definition parseNat :: "string \<Rightarrow> nat" where
  "parseNat cs = foldl (\<lambda>a c. 10 * a + (of_char c - 48)) 0 cs"

text \<open>What an export record of a tile makes \<open>importTile\<close> write.\<close>

definition importedData :: "string \<Rightarrow> tile \<Rightarrow> tileData" where
  "importedData sheet t =
     \<lparr>row = data_row t, col = data_col t, bg = url sheet, bgPos = computedBackgroundPosition t\<rparr>"

text \<open>The record \<open>createMapJSON\<close> pushes for the tile at an index.\<close>

definition exportTile :: "nat \<Rightarrow> tile \<Rightarrow> ExportTile" where
  "exportTile index t =
     \<lparr>et_id = index, et_bgPosition = computedBackgroundPosition t,
      et_col = toString (data_col t), et_row = toString (data_row t)\<rparr>"

text \<open>
  What every browser does with the selector of decimal coordinates: the two attribute
  values are compared with the text as it stands, and the first tile of the document
  that has both is found.
\<close>

definition matchesDecimal :: "selector_engine \<Rightarrow> bool" where
  "matchesDecimal engine \<longleftrightarrow>
     (\<forall>c r ts. engine (tileSelector (toString c) (toString r)) ts =
        Inr (find (\<lambda>t. toString (data_col t) = toString c \<and>
                         toString (data_row t) = toString r) ts))"

text \<open>
  An engine to run an import on a concrete file: it finds the first tile that has the
  given selector as its own, and no tile for any other text.
\<close>

definition decimalEngine :: selector_engine where
  "decimalEngine selector ts =
     Inr (find (\<lambda>t. tileSelector (toString (data_col t)) (toString (data_row t)) = selector) ts)"

text \<open>Every snapshot on the history stack has one entry per tile of the grid, in order.\<close>

definition snapshotsOfGrid :: "editor \<Rightarrow> bool" where
  "snapshotsOfGrid s \<longleftrightarrow>
     (\<forall>snap \<in> set (history s).
        map (\<lambda>d. (row d, col d)) snap = gridCoords (mapRowsCount s) (mapColsCount s))"

text \<open>What holds of the editor between any two events.\<close>

definition editorInv :: "editor \<Rightarrow> bool" where
  "editorInv s \<longleftrightarrow>
     historyInv s \<and> wellFormed s \<and> snapshotsOfGrid s \<and>
     clipboardFunctional (coppiedTileData s) \<and>
     (mouseDown s \<longrightarrow> dragStartPosition s \<noteq> None) \<and>
     beforePasteState s = []"

text \<open>
  The states the user interface can bring a new editor to: each rule is one handler of
  \<open>bindEvents\<close> or \<open>init\<close> running to completion. A tile's \<open>mouseover\<close> fires on a
  tile of the grid. An import that ends with an exception leaves the editor with the
  records applied so far.
\<close>

inductive reachable :: "editor \<Rightarrow> bool" where
  new: "reachable (init R C sheet)"
| mousemove: "reachable s \<Longrightarrow> mousemove layout p s = Inr s' \<Longrightarrow> reachable s'"
| mousedown: "reachable s \<Longrightarrow> reachable (mousedown s)"
| mouseup: "reachable s \<Longrightarrow> reachable (mouseup layout s)"
| mouseover: "reachable s \<Longrightarrow> rc \<in> set (map tileCoords (tiles s)) \<Longrightarrow> reachable (mouseover rc s)"
| autoCheckbox: "reachable s \<Longrightarrow> reachable (autoCheckbox_change checked s)"
| keydown_modifier: "reachable s \<Longrightarrow> reachable (keydown_modifier s)"
| keyup: "reachable s \<Longrightarrow> reachable (keyup metaKey ctrlKey s)"
| keydown_Delete: "reachable s \<Longrightarrow> reachable (keydown_Delete s)"
| copy: "reachable s \<Longrightarrow> reachable (copySelected s)"
| cut: "reachable s \<Longrightarrow> reachable (cutSelected s)"
| paste: "reachable s \<Longrightarrow> reachable (paste s)"
| undo: "reachable s \<Longrightarrow> undo s = Inr s' \<Longrightarrow> reachable s'"
| redo: "reachable s \<Longrightarrow> redo s = Inr s' \<Longrightarrow> reachable s'"
| draw: "reachable s \<Longrightarrow> drawMap sprite s = Inr s' \<Longrightarrow> reachable s'"
| load: "reachable s \<Longrightarrow> reachable (snd (loadMapFromFile engine mapData s))"

section \<open>Basic facts\<close>

lemma tileCoords_simps [simp]:
  "tileCoords (set_background v t) = tileCoords t"
  "tileCoords (set_backgroundPosition v t) = tileCoords t"
  "tileCoords (classList_add_selected t) = tileCoords t"
  "tileCoords (classList_remove_selected t) = tileCoords t"
  by (simp_all add: tileCoords_def set_background_def set_backgroundPosition_def
      classList_add_selected_def classList_remove_selected_def)

lemma tileCoords_setStyle [simp]: "tileCoords (setStyle d t) = tileCoords t"
  by (simp add: setStyle_def)

lemma selected_setStyle [simp]: "selected (setStyle d t) = selected t"
  by (simp add: setStyle_def set_background_def set_backgroundPosition_def)

lemma setStyle_overwrite [simp]: "setStyle d (setStyle e t) = setStyle d t"
  by (simp add: setStyle_def set_background_def set_backgroundPosition_def)

lemma tileState_setStyle:
  "tileState (setStyle d t) = \<lparr>row = data_row t, col = data_col t, bg = bg d, bgPos = bgPos d\<rparr>"
  by (simp add: setStyle_def set_background_def set_backgroundPosition_def tileState_def)

lemma length_updateTile [simp]: "length (updateTile rc f ts) = length ts"
  by (simp add: updateTile_def)

lemma querySelector_coords: "querySelector rc ts = Some t \<Longrightarrow> tileCoords t = rc"
  by (auto simp: querySelector_def find_Some_iff)

lemma querySelector_None: "querySelector rc ts = None \<longleftrightarrow> rc \<notin> tileCoords ` set ts"
  by (auto simp: querySelector_def find_None_iff)

lemma updateTile_absent: "rc \<notin> tileCoords ` set ts \<Longrightarrow> updateTile rc f ts = ts"
  by (induction ts) (auto simp: updateTile_def)

lemma applyTileData_updateTile: "applyTileData rc d ts = updateTile rc (setStyle d) ts"
proof (cases "querySelector rc ts")
  case None
  then have "rc \<notin> tileCoords ` set ts"
    by (simp add: querySelector_None)
  with None show ?thesis
    by (simp add: applyTileData_def updateTile_absent)
next
  case (Some t)
  then have "tileCoords t = rc"
    by (rule querySelector_coords)
  with Some show ?thesis
    by (simp add: applyTileData_def setStyle_def [abs_def])
qed

lemma fold_applyTileData:
  "fold (\<lambda>d. applyTileData (k d) d) ds ts = map (applyAll k ds) ts"
proof (induction ds arbitrary: ts)
  case Nil
  show ?case by (simp add: applyAll_def)
next
  case (Cons d ds)
  have "fold (\<lambda>d. applyTileData (k d) d) (d # ds) ts =
        map (applyAll k ds) (applyTileData (k d) d ts)"
    by (simp add: Cons.IH)
  also have "\<dots> = map (applyAll k (d # ds)) ts"
    by (simp add: applyTileData_updateTile updateTile_def applyAll_def)
  finally show ?case .
qed

lemma tileCoords_applyAll [simp]: "tileCoords (applyAll k ds t) = tileCoords t"
  by (induction ds arbitrary: t) (simp_all add: applyAll_def)

lemma selected_applyAll [simp]: "selected (applyAll k ds t) = selected t"
  by (induction ds arbitrary: t) (simp_all add: applyAll_def)

lemma applyAll_absent: "tileCoords t \<notin> k ` set ds \<Longrightarrow> applyAll k ds t = t"
  by (induction ds arbitrary: t) (auto simp: applyAll_def)

lemma applyAll_Cons:
  "applyAll k (d # ds) t = applyAll k ds (if tileCoords t = k d then setStyle d t else t)"
  by (simp add: applyAll_def)

lemma restore_exact:
  assumes "distinct (map tileCoords ts)"
    and "map (\<lambda>d. (row d, col d)) snap = map tileCoords ts"
  shows "map tileState (fold (\<lambda>d. applyTileData (row d, col d) d) snap ts) = snap"
proof -
  from assms(2) have len: "length snap = length ts"
    by (metis length_map)
  from len assms have "map tileState (map (applyAll (\<lambda>d. (row d, col d)) snap) ts) = snap"
  proof (induction snap ts rule: list_induct2)
    case Nil
    show ?case by simp
  next
    case (Cons d snap t ts)
    let ?k = "\<lambda>d. (row d, col d)"
    from Cons.prems have key: "?k d = tileCoords t"
      and rest: "map ?k snap = map tileCoords ts"
      and notin: "tileCoords t \<notin> set (map tileCoords ts)"
      and dist: "distinct (map tileCoords ts)"
      by simp_all
    from notin rest have "tileCoords t \<notin> ?k ` set snap"
      by (metis list.set_map)
    then have head: "applyAll ?k (d # snap) t = setStyle d t"
      by (simp add: applyAll_Cons key applyAll_absent)
    have tail: "map (applyAll ?k (d # snap)) ts = map (applyAll ?k snap) ts"
    proof (rule map_cong [OF refl])
      fix u assume "u \<in> set ts"
      with notin have "tileCoords u \<noteq> tileCoords t"
        by (metis image_eqI list.set_map)
      then have "tileCoords u \<noteq> ?k d"
        by (simp add: key)
      then show "applyAll ?k (d # snap) u = applyAll ?k snap u"
        by (simp add: applyAll_Cons)
    qed
    have styled: "tileState (setStyle d t) = d"
      using key by (simp add: tileState_setStyle tileCoords_def)
    have "map tileState (map (applyAll ?k (d # snap)) (t # ts)) =
          tileState (setStyle d t) # map tileState (map (applyAll ?k snap) ts)"
      by (simp only: list.map head tail)
    also have "\<dots> = d # snap"
      by (simp only: styled Cons.IH [OF dist rest])
    finally show ?case .
  qed
  then show ?thesis
    by (simp add: fold_applyTileData)
qed

lemma restoreFromHistory_Inr:
  assumes "restoreFromHistory i s = Inr s'"
  shows "0 \<le> i \<and> i < int (length (history s)) \<and>
         s' = s\<lparr>tiles := map (applyAll (\<lambda>d. (row d, col d)) (history s ! nat i)) (tiles s)\<rparr>"
  using assms
  by (auto simp: restoreFromHistory_def fold_applyTileData split: if_splits)

section \<open>The history stack and its cursor\<close>

lemma historyInv_cursorValid: "historyInv s \<Longrightarrow> cursorValid s"
  by (auto simp: historyInv_def cursorValid_def)

lemma historyInv_init: "historyInv (init r c sheet)"
  by (simp add: historyInv_def init_def)

lemma history_addToHistory:
  "0 \<le> currentHistoryIndex s \<Longrightarrow>
   history (addToHistory s) =
     take (nat (currentHistoryIndex s) + 1) (history s) @ [map tileState (tiles s)]"
  by (simp add: addToHistory_def slice0_def Let_def nat_add_distrib)

lemma cursor_addToHistory:
  "currentHistoryIndex (addToHistory s) = int (length (history (addToHistory s))) - 1"
  by (simp add: addToHistory_def Let_def)

lemma historyInv_addToHistory: "historyInv (addToHistory s)"
  by (simp add: addToHistory_def Let_def historyInv_def)

lemma undo_total: "historyInv s \<Longrightarrow> \<exists>s'. undo s = Inr s' \<and> historyInv s'"
  by (auto simp: undo_def restoreFromHistory_def historyInv_def)

lemma redo_total: "historyInv s \<Longrightarrow> \<exists>s'. redo s = Inr s' \<and> historyInv s'"
  by (auto simp: redo_def restoreFromHistory_def historyInv_def)

text \<open>
  C6. \<open>addToHistory\<close> keeps the entries at indices 0 to the cursor and appends one
  snapshot, which has one entry for every tile of the grid, in document order, holding the
  tile's row, its column, its background and its background position; it moves the
  cursor to the new last index and leaves the tiles as they are. From a state whose
  cursor is in range (or whose history is still empty), a commit, an undo and a redo each
  return normally and leave the cursor a valid index of a non-empty history. Every
  reachable state is such a state (\<open>reachable_historyInv\<close> below).
\<close>

theorem history_cursor_valid:
  assumes "historyInv s"
  shows "history (addToHistory s) =
           take (nat (currentHistoryIndex s) + 1) (history s) @
           [map (\<lambda>t. \<lparr>row = data_row t, col = data_col t, bg = background t,
                       bgPos = backgroundPosition t\<rparr>) (tiles s)] \<and>
         tiles (addToHistory s) = tiles s \<and>
         currentHistoryIndex (addToHistory s) = int (length (history (addToHistory s))) - 1 \<and>
         historyInv (addToHistory s) \<and> cursorValid (addToHistory s) \<and>
         (\<exists>s'. undo s = Inr s' \<and> historyInv s' \<and> cursorValid s') \<and>
         (\<exists>s'. redo s = Inr s' \<and> historyInv s' \<and> cursorValid s')"
proof -
  from assms have nonneg: "0 \<le> currentHistoryIndex s"
    by (auto simp: historyInv_def)
  have snap: "map tileState (tiles s) =
              map (\<lambda>t. \<lparr>row = data_row t, col = data_col t, bg = background t,
                          bgPos = backgroundPosition t\<rparr>) (tiles s)"
    by (simp add: tileState_def)
  have same: "tiles (addToHistory s) = tiles s"
    by (simp add: addToHistory_def Let_def)
  show ?thesis
    using history_addToHistory [OF nonneg] cursor_addToHistory [of s] same
      historyInv_addToHistory [of s] undo_total [OF assms] redo_total [OF assms]
    unfolding snap
    by (blast intro: historyInv_cursorValid)
qed

theorem history_cursor_valid_witness:
  "historyInv
     ((init 1 2 ''sprites.png'')
        \<lparr>tiles := [\<lparr>data_row = 0, data_col = 0, background = ''transparent'',
                    backgroundPosition = ''0% 0%'', selected = False\<rparr>,
                   \<lparr>data_row = 0, data_col = 1, background = ''url(sprites.png)'',
                    backgroundPosition = ''-49px -1px'', selected = True\<rparr>],
         history := [[\<lparr>row = 0, col = 0, bg = [], bgPos = []\<rparr>,
                      \<lparr>row = 0, col = 1, bg = [], bgPos = []\<rparr>],
                     [\<lparr>row = 0, col = 0, bg = ''url(sprites.png)'', bgPos = ''-1px -1px''\<rparr>,
                      \<lparr>row = 0, col = 1, bg = [], bgPos = []\<rparr>]],
         currentHistoryIndex := 0\<rparr>) \<and>
   history (addToHistory
     ((init 1 2 ''sprites.png'')
        \<lparr>tiles := [\<lparr>data_row = 0, data_col = 0, background = ''transparent'',
                    backgroundPosition = ''0% 0%'', selected = False\<rparr>,
                   \<lparr>data_row = 0, data_col = 1, background = ''url(sprites.png)'',
                    backgroundPosition = ''-49px -1px'', selected = True\<rparr>],
         history := [[\<lparr>row = 0, col = 0, bg = [], bgPos = []\<rparr>,
                      \<lparr>row = 0, col = 1, bg = [], bgPos = []\<rparr>],
                     [\<lparr>row = 0, col = 0, bg = ''url(sprites.png)'', bgPos = ''-1px -1px''\<rparr>,
                      \<lparr>row = 0, col = 1, bg = [], bgPos = []\<rparr>]],
         currentHistoryIndex := 0\<rparr>)) =
     [[\<lparr>row = 0, col = 0, bg = [], bgPos = []\<rparr>,
       \<lparr>row = 0, col = 1, bg = [], bgPos = []\<rparr>],
      [\<lparr>row = 0, col = 0, bg = ''transparent'', bgPos = ''0% 0%''\<rparr>,
       \<lparr>row = 0, col = 1, bg = ''url(sprites.png)'', bgPos = ''-49px -1px''\<rparr>]] \<and>
   currentHistoryIndex (addToHistory
     ((init 1 2 ''sprites.png'')
        \<lparr>tiles := [\<lparr>data_row = 0, data_col = 0, background = ''transparent'',
                    backgroundPosition = ''0% 0%'', selected = False\<rparr>,
                   \<lparr>data_row = 0, data_col = 1, background = ''url(sprites.png)'',
                    backgroundPosition = ''-49px -1px'', selected = True\<rparr>],
         history := [[\<lparr>row = 0, col = 0, bg = [], bgPos = []\<rparr>,
                      \<lparr>row = 0, col = 1, bg = [], bgPos = []\<rparr>],
                     [\<lparr>row = 0, col = 0, bg = ''url(sprites.png)'', bgPos = ''-1px -1px''\<rparr>,
                      \<lparr>row = 0, col = 1, bg = [], bgPos = []\<rparr>]],
         currentHistoryIndex := 0\<rparr>)) = 1"
proof -
  let ?s = "(init 1 2 ''sprites.png'')
        \<lparr>tiles := [\<lparr>data_row = 0, data_col = 0, background = ''transparent'',
                    backgroundPosition = ''0% 0%'', selected = False\<rparr>,
                   \<lparr>data_row = 0, data_col = 1, background = ''url(sprites.png)'',
                    backgroundPosition = ''-49px -1px'', selected = True\<rparr>],
         history := [[\<lparr>row = 0, col = 0, bg = [], bgPos = []\<rparr>,
                      \<lparr>row = 0, col = 1, bg = [], bgPos = []\<rparr>],
                     [\<lparr>row = 0, col = 0, bg = ''url(sprites.png)'', bgPos = ''-1px -1px''\<rparr>,
                      \<lparr>row = 0, col = 1, bg = [], bgPos = []\<rparr>]],
         currentHistoryIndex := 0\<rparr>"
  have h: "historyInv ?s"
    by (simp add: historyInv_def)
  show ?thesis
    using h history_cursor_valid [OF h]
    by simp
qed

section \<open>Undo and redo\<close>

text \<open>
  C10. An undo or a redo that returns leaves the history stack and the clipboard as they
  were: the new state is the old one except for the cursor and the tiles. Of the tiles,
  the coordinates and the class \<open>selected\<close> are unchanged; either nothing was restored
  (cursor at an end of the stack), or the cursor moved to an index of the stack and, when
  the snapshot there is a snapshot of this grid, every tile has exactly the style recorded
  in it.
\<close>

theorem undo_redo_frame:
  assumes "undo s = Inr s' \<or> redo s = Inr s'"
  shows "history s' = history s \<and>
         coppiedTileData s' = coppiedTileData s \<and> coppiedTiles s' = coppiedTiles s \<and>
         s' = s\<lparr>currentHistoryIndex := currentHistoryIndex s', tiles := tiles s'\<rparr> \<and>
         map tileCoords (tiles s') = map tileCoords (tiles s) \<and>
         map selected (tiles s') = map selected (tiles s) \<and>
         (currentHistoryIndex s' = currentHistoryIndex s \<and> tiles s' = tiles s \<or>
          0 \<le> currentHistoryIndex s' \<and> currentHistoryIndex s' < int (length (history s)) \<and>
          (gridSnapshot (tiles s) (history s ! nat (currentHistoryIndex s')) \<longrightarrow>
             map tileState (tiles s') = history s ! nat (currentHistoryIndex s')))"
proof -
  have step: "restoreFromHistory i (s\<lparr>currentHistoryIndex := i\<rparr>) = Inr s' \<Longrightarrow> ?thesis" for i
  proof -
    assume r: "restoreFromHistory i (s\<lparr>currentHistoryIndex := i\<rparr>) = Inr s'"
    let ?T = "map (applyAll (\<lambda>d. (row d, col d)) (history s ! nat i)) (tiles s)"
    from restoreFromHistory_Inr [OF r]
    have rng: "0 \<le> i" "i < int (length (history s))"
      and eq: "s' = s\<lparr>currentHistoryIndex := i, tiles := ?T\<rparr>"
      by simp_all
    have "map tileState ?T = history s ! nat i"
      if "gridSnapshot (tiles s) (history s ! nat i)"
      using that restore_exact [of "tiles s" "history s ! nat i"]
      by (simp add: gridSnapshot_def fold_applyTileData)
    with rng show ?thesis
      unfolding eq by (simp add: comp_def)
  qed
  from assms show ?thesis
  proof
    assume "undo s = Inr s'"
    then show ?thesis
      using step [of "currentHistoryIndex s - 1"]
      by (auto simp: undo_def split: if_splits)
  next
    assume "redo s = Inr s'"
    then show ?thesis
      using step [of "currentHistoryIndex s + 1"]
      by (auto simp: redo_def split: if_splits)
  qed
qed


theorem undo_redo_frame_witness:
  "(undo ((init 1 1 ''s.png'')\<lparr>history := [[\<lparr>row = 0, col = 0, bg = ''url(s.png)'', bgPos = ''-1px -1px''\<rparr>],
                                            [\<lparr>row = 0, col = 0, bg = [], bgPos = []\<rparr>]],
                               currentHistoryIndex := 1\<rparr>) =
    Inr ((init 1 1 ''s.png'')\<lparr>history := [[\<lparr>row = 0, col = 0, bg = ''url(s.png)'', bgPos = ''-1px -1px''\<rparr>],
                                            [\<lparr>row = 0, col = 0, bg = [], bgPos = []\<rparr>]],
                               currentHistoryIndex := 0,
                               tiles := [\<lparr>data_row = 0, data_col = 0, background = ''url(s.png)'',
                                          backgroundPosition = ''-1px -1px'', selected = False\<rparr>]\<rparr>)) \<and>
   map tileState [\<lparr>data_row = 0, data_col = 0, background = ''url(s.png)'',
                    backgroundPosition = ''-1px -1px'', selected = False\<rparr>] =
     [\<lparr>row = 0, col = 0, bg = ''url(s.png)'', bgPos = ''-1px -1px''\<rparr>]"
proof -
  let ?h = "[[\<lparr>row = 0, col = 0, bg = ''url(s.png)'', bgPos = ''-1px -1px''\<rparr>],
             [\<lparr>row = 0, col = 0, bg = [], bgPos = []\<rparr>]]"
  let ?w = "(init 1 1 ''s.png'')\<lparr>history := ?h, currentHistoryIndex := 1\<rparr>"
  let ?w' = "(init 1 1 ''s.png'')\<lparr>history := ?h, currentHistoryIndex := 0,
               tiles := [\<lparr>data_row = 0, data_col = 0, background = ''url(s.png)'',
                          backgroundPosition = ''-1px -1px'', selected = False\<rparr>]\<rparr>"
  have u: "undo ?w = Inr ?w'"
    by (simp add: undo_def restoreFromHistory_def init_def gridCoords_def createTile_def
        applyTileData_def querySelector_def updateTile_def tileCoords_def
        set_background_def set_backgroundPosition_def)
  have g: "gridSnapshot (tiles ?w) (history ?w ! nat (currentHistoryIndex ?w'))"
    by (simp add: gridSnapshot_def init_def gridCoords_def createTile_def tileCoords_def)
  from undo_redo_frame [OF disjI1 [OF u]] g u show ?thesis
    by (simp add: tileState_def)
qed

section \<open>Selection by dragging\<close>

lemma set_gridCoords: "set (gridCoords R C) = {0..R - 1} \<times> {0..C - 1}"
  by (simp add: gridCoords_def)

lemma distinct_gridCoords: "distinct (gridCoords R C)"
  by (simp add: gridCoords_def distinct_product)

lemma tileCoords_createTile [simp]: "tileCoords (createTile rc) = rc"
  by (simp add: tileCoords_def createTile_def)

lemma coords_init [simp]: "map tileCoords (tiles (init R C sheet)) = gridCoords R C"
  by (simp add: init_def comp_def)

lemma snd_selectLoop:
  "snd (selectLoop layout sb selecting ts sel) =
     sel @ (if selecting then [] else filter (hitBy layout sb) (map tileCoords ts))"
  by (induction ts arbitrary: sel) (simp_all add: Let_def hitBy_def)

lemma fst_selectLoop:
  "distinct (map tileCoords ts) \<Longrightarrow>
   fst (selectLoop layout sb selecting ts sel) = map (selectVisit layout sb sel) ts"
proof (induction ts arbitrary: sel)
  case Nil
  show ?case by simp
next
  case (Cons t ts)
  let ?sel2 = "if intersects (layout (tileCoords t)) sb \<and> \<not> selecting then sel @ [tileCoords t] else sel"
  from Cons.prems have dist: "distinct (map tileCoords ts)"
    and notin: "tileCoords t \<notin> tileCoords ` set ts"
    by simp_all
  have "map (selectVisit layout sb ?sel2) ts = map (selectVisit layout sb sel) ts"
  proof (rule map_cong [OF refl])
    fix u assume "u \<in> set ts"
    with notin have "tileCoords u \<noteq> tileCoords t"
      by (metis image_eqI)
    then show "selectVisit layout sb ?sel2 u = selectVisit layout sb sel u"
      by (simp add: selectVisit_def)
  qed
  with Cons.IH [OF dist, of ?sel2] show ?case
    by (simp add: Let_def selectVisit_def)
qed

lemma filter_eq_single:
  "distinct xs \<Longrightarrow> a \<in> set xs \<Longrightarrow> (\<And>b. b \<in> set xs \<Longrightarrow> P b \<longleftrightarrow> b = a) \<Longrightarrow> filter P xs = [a]"
proof (induction xs)
  case Nil
  then show ?case by simp
next
  case (Cons b xs)
  show ?case
  proof (cases "b = a")
    case True
    with Cons.prems have "filter P xs = []"
      by (auto simp: filter_empty_conv)
    with True Cons.prems(3) [of a] show ?thesis by simp
  next
    case False
    with Cons show ?thesis by auto
  qed
qed

lemma hit_origin:
  "0 \<le> fst rc \<Longrightarrow> 0 \<le> snd rc \<Longrightarrow>
   hitBy squareLayout (selectionBounds (5, 5) (5, 5)) rc \<longleftrightarrow> rc = (0, 0)"
  by (cases rc) (auto simp: hitBy_def squareLayout_def selectionBounds_def intersects_def)

lemma mousemove_idle:
  "\<not> mouseDown s \<Longrightarrow> mousemove layout p s = Inr (s\<lparr>mousePosition := p\<rparr>)"
  by (simp add: mousemove_def)

lemma coords_mousedown [simp]: "map tileCoords (tiles (mousedown s)) = map tileCoords (tiles s)"
  by (simp add: mousedown_def comp_def)

lemma selectedTiles_mouseup:
  assumes "dragStartPosition s = Some a"
  shows "selectedTiles (mouseup layout s) =
           (if ctrlDown s then selectedTiles s else []) @
           filter (hitBy layout (selectionBounds a (mousePosition s))) (map tileCoords (tiles s))"
  using assms by (simp add: mouseup_def selectTiles_def Let_def snd_selectLoop)

lemma tiles_mouseup:
  assumes "dragStartPosition s = Some a" and "distinct (map tileCoords (tiles s))"
  shows "tiles (mouseup layout s) =
           map (selectVisit layout (selectionBounds a (mousePosition s))
                  (if ctrlDown s then selectedTiles s else [])) (tiles s)"
  using assms by (simp add: mouseup_def selectTiles_def Let_def fst_selectLoop)

lemma tileCoords_selectVisit [simp]: "tileCoords (selectVisit layout sb sel t) = tileCoords t"
  by (simp add: selectVisit_def Let_def)

lemma selected_selectVisit:
  "selected (selectVisit layout sb sel t) \<longleftrightarrow>
     hitBy layout sb (tileCoords t) \<or> (selected t \<and> tileCoords t \<in> set sel)"
  by (auto simp: selectVisit_def Let_def hitBy_def classList_add_selected_def
      classList_remove_selected_def)

lemma markerIffSelected_mouseup:
  assumes start: "dragStartPosition s = Some a"
    and dist: "distinct (map tileCoords (tiles s))"
    and marked: "membersMarked s"
  shows "markerIffSelected (mouseup layout s)"
proof -
  let ?sb = "selectionBounds a (mousePosition s)"
  let ?sel = "if ctrlDown s then selectedTiles s else []"
  have "selected (selectVisit layout ?sb ?sel t) \<longleftrightarrow>
        tileCoords t \<in> set (?sel @ filter (hitBy layout ?sb) (map tileCoords (tiles s)))"
    if "t \<in> set (tiles s)" for t
    using that marked by (auto simp: selected_selectVisit membersMarked_def)
  then show ?thesis
    unfolding markerIffSelected_def tiles_mouseup [OF start dist] selectedTiles_mouseup [OF start]
    by simp
qed

lemma membersMarked_mousedown: "membersMarked s \<Longrightarrow> membersMarked (mousedown s)"
  by (auto simp: membersMarked_def mousedown_def)

lemma markerIffSelected_membersMarked: "markerIffSelected s \<Longrightarrow> membersMarked s"
  by (simp add: markerIffSelected_def membersMarked_def)

lemma markerIffSelected_clickAt:
  assumes "distinct (map tileCoords (tiles s))" and "membersMarked s"
  shows "markerIffSelected (clickAt p s)"
  unfolding clickAt_def
proof (rule markerIffSelected_mouseup)
  show "dragStartPosition (mousedown (s\<lparr>mousePosition := p\<rparr>)) = Some p"
    by (simp add: mousedown_def)
  show "distinct (map tileCoords (tiles (mousedown (s\<lparr>mousePosition := p\<rparr>))))"
    using assms(1) by simp
  have "membersMarked (s\<lparr>mousePosition := p\<rparr>)"
    using assms(2) by (simp add: membersMarked_def)
  then show "membersMarked (mousedown (s\<lparr>mousePosition := p\<rparr>))"
    by (rule membersMarked_mousedown)
qed

lemma selectedTiles_clickAt:
  "selectedTiles (clickAt p s) =
     (if ctrlDown s then selectedTiles s else []) @
     filter (hitBy squareLayout (selectionBounds p p)) (map tileCoords (tiles s))"
proof -
  have "dragStartPosition (mousedown (s\<lparr>mousePosition := p\<rparr>)) = Some p"
    by (simp add: mousedown_def)
  from selectedTiles_mouseup [OF this, of squareLayout] show ?thesis
    by (simp add: clickAt_def) (simp add: mousedown_def)
qed

lemma hits_origin:
  assumes "0 < R" and "0 < C"
  shows "filter (hitBy squareLayout (selectionBounds (5, 5) (5, 5))) (gridCoords R C) = [(0, 0)]"
proof (rule filter_eq_single)
  show "distinct (gridCoords R C)"
    by (rule distinct_gridCoords)
  show "(0, 0) \<in> set (gridCoords R C)"
    using assms by (simp add: set_gridCoords)
  fix b assume "b \<in> set (gridCoords R C)"
  then have "0 \<le> fst b" "0 \<le> snd b"
    by (auto simp: set_gridCoords)
  then show "hitBy squareLayout (selectionBounds (5, 5) (5, 5)) b \<longleftrightarrow> b = (0, 0)"
    by (rule hit_origin)
qed

lemma coords_selectLoop [simp]:
  "map tileCoords (fst (selectLoop layout sb selecting ts sel)) = map tileCoords ts"
  by (induction ts arbitrary: sel) (simp_all add: Let_def)

lemma frame_selectTiles [simp]:
  "map tileCoords (tiles (selectTiles layout selecting s)) = map tileCoords (tiles s)"
  "ctrlDown (selectTiles layout selecting s) = ctrlDown s"
  "history (selectTiles layout selecting s) = history s"
  "currentHistoryIndex (selectTiles layout selecting s) = currentHistoryIndex s"
  "isAutoEnabled (selectTiles layout selecting s) = isAutoEnabled s"
  "sprites (selectTiles layout selecting s) = sprites s"
  "mapRowsCount (selectTiles layout selecting s) = mapRowsCount s"
  "mapColsCount (selectTiles layout selecting s) = mapColsCount s"
  "coppiedTileData (selectTiles layout selecting s) = coppiedTileData s"
  by (simp_all add: selectTiles_def Let_def split: option.splits)

lemma frame_clickAt [simp]:
  "map tileCoords (tiles (clickAt p s)) = map tileCoords (tiles s)"
  "ctrlDown (clickAt p s) = ctrlDown s"
  "history (clickAt p s) = history s"
  "currentHistoryIndex (clickAt p s) = currentHistoryIndex s"
  "isAutoEnabled (clickAt p s) = isAutoEnabled s"
  "sprites (clickAt p s) = sprites s"
  "mapRowsCount (clickAt p s) = mapRowsCount s"
  "mapColsCount (clickAt p s) = mapColsCount s"
  "coppiedTileData (clickAt p s) = coppiedTileData s"
  by (simp_all add: clickAt_def mouseup_def) (simp_all add: mousedown_def)

lemma selectedTiles_click_origin:
  assumes "map tileCoords (tiles s) = gridCoords R C" and "0 < R" and "0 < C"
  shows "selectedTiles (clickAt (5, 5) s) = (if ctrlDown s then selectedTiles s else []) @ [(0, 0)]"
  by (simp only: selectedTiles_clickAt assms(1) hits_origin [OF assms(2,3)])

lemma init_fields [simp]:
  "selectedTiles (init R C sheet) = []"
  "history (init R C sheet) = []"
  "currentHistoryIndex (init R C sheet) = 0"
  "ctrlDown (init R C sheet) = False"
  "isAutoEnabled (init R C sheet) = False"
  "sprites (init R C sheet) = sheet"
  "coppiedTileData (init R C sheet) = []"
  "tileUnderCoursor (init R C sheet) = None"
  "mapRowsCount (init R C sheet) = R"
  "mapColsCount (init R C sheet) = C"
  by (simp_all add: init_def)

lemma markerIffSelected_init: "markerIffSelected (init R C sheet)"
  by (simp add: markerIffSelected_def) (simp add: init_def createTile_def)

text \<open>
  C9, as stated, fails. In a new editor with the modifier key held, two clicks on the tile
  at (0, 0) leave that tile twice in \<open>selectedTiles\<close>: on pointer-up \<open>selectTiles\<close>
  pushes every tile under the rectangle, whether or not the array already holds it.
\<close>

theorem ctrl_click_twice_duplicates:
  "selectedTiles (clickAt (5, 5) (clickAt (5, 5) (keydown_modifier (new_Map ''sprites.png'')))) =
     [(0, 0), (0, 0)] \<and>
   \<not> distinct (selectedTiles
        (clickAt (5, 5) (clickAt (5, 5) (keydown_modifier (new_Map ''sprites.png'')))))"
proof -
  let ?k = "keydown_modifier (new_Map ''sprites.png'')"
  have k: "map tileCoords (tiles ?k) = gridCoords 50 100" "ctrlDown ?k" "selectedTiles ?k = []"
    by (simp_all add: keydown_modifier_def new_Map_def)
  have one: "selectedTiles (clickAt (5, 5) ?k) = [(0, 0)]"
    using selectedTiles_click_origin [of ?k 50 100] k by simp
  have "map tileCoords (tiles (clickAt (5, 5) ?k)) = gridCoords 50 100"
    using k(1) by simp
  from selectedTiles_click_origin [OF this] one k(2)
  have "selectedTiles (clickAt (5, 5) (clickAt (5, 5) ?k)) = [(0, 0), (0, 0)]"
    by simp
  then show ?thesis by simp
qed

text \<open>
  C9, amended. On pointer-up after a pointer-down on the map, \<open>selectedTiles\<close> is the
  previous selection if the modifier is held, and empty otherwise, followed by the tiles
  that intersect the drag rectangle, in document order, each of them once. So without
  the modifier the selection has no duplicates.
\<close>

theorem selection_on_pointer_up:
  assumes "dragStartPosition s = Some a"
    and "distinct (map tileCoords (tiles s))"
  shows "selectedTiles (mouseup layout s) =
           (if ctrlDown s then selectedTiles s else []) @
           filter (hitBy layout (selectionBounds a (mousePosition s))) (map tileCoords (tiles s)) \<and>
         distinct (filter (hitBy layout (selectionBounds a (mousePosition s)))
                     (map tileCoords (tiles s))) \<and>
         (\<not> ctrlDown s \<longrightarrow> distinct (selectedTiles (mouseup layout s)))"
  using assms by (simp add: selectedTiles_mouseup)

theorem selection_on_pointer_up_witness:
  "selectedTiles (mouseup squareLayout (mousedown ((init 1 2 ''s.png'')\<lparr>mousePosition := (15, 5)\<rparr>))) =
     [(0, 1)] \<and>
   distinct (selectedTiles
     (mouseup squareLayout (mousedown ((init 1 2 ''s.png'')\<lparr>mousePosition := (15, 5)\<rparr>))))"
proof -
  let ?s = "mousedown ((init 1 2 ''s.png'')\<lparr>mousePosition := (15, 5)\<rparr>)"
  have a: "dragStartPosition ?s = Some (15, 5)"
    by (simp add: mousedown_def)
  have d: "distinct (map tileCoords (tiles ?s))"
    by (simp add: distinct_gridCoords)
  have c: "\<not> ctrlDown ?s" "mousePosition ?s = (15, 5)"
    by (simp_all add: mousedown_def)
  have g: "gridCoords 1 2 = [(0, 0), (0, 1)]"
    by (simp add: gridCoords_def upto_rec1)
  from selection_on_pointer_up [OF a d, of squareLayout] c show ?thesis
    by (simp add: g hitBy_def squareLayout_def selectionBounds_def intersects_def)
qed

section \<open>The first committed mutation; copy and the selection marker\<close>

lemma querySelector_map:
  "(\<And>t. tileCoords (g t) = tileCoords t) \<Longrightarrow>
   querySelector rc (map g ts) = map_option g (querySelector rc ts)"
  by (induction ts) (simp_all add: querySelector_def)

lemma querySelector_createTile:
  "rc \<in> set rcs \<Longrightarrow> querySelector rc (map createTile rcs) = Some (createTile rc)"
  by (induction rcs) (auto simp: querySelector_def)

lemma querySelector_updateTile:
  "(\<And>t. tileCoords (f t) = tileCoords t) \<Longrightarrow>
   querySelector rc (updateTile rc' f ts) =
     map_option (\<lambda>t. if rc = rc' then f t else t) (querySelector rc ts)"
  by (induction ts) (auto simp: querySelector_def updateTile_def)

lemma tileCoords_drawTile [simp]: "tileCoords (drawTile sheet p t) = tileCoords t"
  by (simp add: drawTile_def)

lemma sortBy_single [simp]: "sortBy cmp [a] = [a]"
  by simp

lemma drawMap_single:
  assumes "selectedTiles s = [rc]" and "\<not> isAutoEnabled s"
  shows "\<exists>s'. drawMap p s = Inr s' \<and>
           tiles s' = updateTile rc (drawTile (sprites s) p) (tiles s) \<and>
           history s' = slice0 (history s) (currentHistoryIndex s + 1) @
                          [map tileState (updateTile rc (drawTile (sprites s) p) (tiles s))] \<and>
           currentHistoryIndex s' = int (length (history s')) - 1 \<and>
           selectedTiles s' = []"
  using assms by (simp add: drawMap_def Let_def addToHistory_def)

lemma undo_at_bottom: "currentHistoryIndex s \<le> 0 \<Longrightarrow> undo s = Inr s"
  by (simp add: undo_def)

text \<open>
  C1 at a new editor: click the tile at (0, 0), then draw the first sprite of the palette.
  The draw returns with a history of one entry, the cursor at 0: no snapshot of the empty
  grid was ever committed. \<open>undo\<close> then returns the state unchanged, and the tile at
  (0, 0), empty before the draw, keeps the sprite.
\<close>

theorem first_draw_not_undoable:
  "case drawMap ''-1px -1px'' (clickAt (5, 5) (new_Map ''sprites.png'')) of
     Inl e \<Rightarrow> False
   | Inr s \<Rightarrow>
       length (history s) = 1 \<and> currentHistoryIndex s = 0 \<and> undo s = Inr s \<and>
       map_option computedBackgroundPosition (querySelector (0, 0) (tiles s)) = Some ''-1px -1px'' \<and>
       map_option computedBackgroundPosition
         (querySelector (0, 0) (tiles (new_Map ''sprites.png''))) = Some ''0% 0%''"
proof -
  let ?n = "new_Map ''sprites.png''"
  let ?x = "clickAt (5, 5) ?n"
  have sel: "selectedTiles ?x = [(0, 0)]"
    using selectedTiles_click_origin [of ?n 50 100] by (simp add: new_Map_def)
  have auto: "\<not> isAutoEnabled ?x" and h: "history ?x = []" "currentHistoryIndex ?x = 0"
    by (simp_all add: new_Map_def)
  from drawMap_single [OF sel auto, of "''-1px -1px''"] obtain s where
    d: "drawMap ''-1px -1px'' ?x = Inr s"
    and t: "tiles s = updateTile (0, 0) (drawTile (sprites ?x) ''-1px -1px'') (tiles ?x)"
    and hs: "history s = slice0 (history ?x) (currentHistoryIndex ?x + 1) @
               [map tileState (updateTile (0, 0) (drawTile (sprites ?x) ''-1px -1px'') (tiles ?x))]"
    and c: "currentHistoryIndex s = int (length (history s)) - 1"
    by blast
  have len: "length (history s) = 1"
    unfolding hs by (simp add: slice0_def new_Map_def)
  with c have c0: "currentHistoryIndex s = 0"
    by simp
  have origin: "(0, 0) \<in> set (gridCoords 50 100)"
    by (simp add: set_gridCoords)
  have fresh: "querySelector (0, 0) (tiles ?n) = Some (createTile (0, 0))"
    by (simp add: new_Map_def init_def querySelector_createTile [OF origin])
  have "map tileCoords (tiles ?x) = gridCoords 50 100"
    by (simp add: new_Map_def)
  with origin have "(0, 0) \<in> tileCoords ` set (tiles ?x)"
    by (metis list.set_map)
  then obtain u where u: "querySelector (0, 0) (tiles ?x) = Some u"
    using querySelector_None [of "(0, 0)" "tiles ?x"] by (cases "querySelector (0, 0) (tiles ?x)") auto
  have drawn: "map_option computedBackgroundPosition (querySelector (0, 0) (tiles s)) =
      Some ''-1px -1px''"
    unfolding t
    by (simp add: querySelector_updateTile u)
      (simp add: computedBackgroundPosition_def drawTile_def
        set_background_def set_backgroundPosition_def classList_remove_selected_def)
  from d len c0 drawn fresh undo_at_bottom [of s] show ?thesis
    by (simp add: computedBackgroundPosition_def createTile_def)
qed

lemma querySelector_mem: "querySelector rc ts = Some t \<Longrightarrow> t \<in> set ts"
  by (auto simp: querySelector_def find_Some_iff)

lemma querySelector_present:
  "rc \<in> set (map tileCoords ts) \<Longrightarrow> \<exists>t. querySelector rc ts = Some t"
  using querySelector_None [of rc ts] by (cases "querySelector rc ts") auto

lemma markerIffSelected_first_click:
  "markerIffSelected (clickAt p (init R C sheet))"
proof (rule markerIffSelected_clickAt)
  show "distinct (map tileCoords (tiles (init R C sheet)))"
    by (simp add: distinct_gridCoords)
  show "membersMarked (init R C sheet)"
    by (simp add: membersMarked_def)
qed

text \<open>
  C8 at a new editor: after a click on the tile at (0, 0) the marked tiles are exactly the
  selected ones. \<open>copySelected\<close> then removes the marker of that tile and leaves it in
  \<open>selectedTiles\<close>, so the equivalence no longer holds.
\<close>

theorem copy_keeps_selection_without_marker:
  "markerIffSelected (clickAt (5, 5) (new_Map ''sprites.png'')) \<and>
   selectedTiles (clickAt (5, 5) (new_Map ''sprites.png'')) = [(0, 0)] \<and>
   selectedTiles (copySelected (clickAt (5, 5) (new_Map ''sprites.png''))) = [(0, 0)] \<and>
   map_option selected
     (querySelector (0, 0) (tiles (copySelected (clickAt (5, 5) (new_Map ''sprites.png''))))) =
     Some False \<and>
   \<not> markerIffSelected (copySelected (clickAt (5, 5) (new_Map ''sprites.png'')))"
proof -
  let ?x = "clickAt (5, 5) (new_Map ''sprites.png'')"
  have inv: "markerIffSelected ?x"
    unfolding new_Map_def by (rule markerIffSelected_first_click)
  have sel: "selectedTiles ?x = [(0, 0)]"
    using selectedTiles_click_origin [of "new_Map ''sprites.png''" 50 100] by (simp add: new_Map_def)
  have sel': "selectedTiles (copySelected ?x) = [(0, 0)]"
    by (simp add: copySelected_def sel)
  have t: "tiles (copySelected ?x) = updateTile (0, 0) classList_remove_selected (tiles ?x)"
    by (simp add: copySelected_def sel)
  have "(0, 0) \<in> set (map tileCoords (tiles ?x))"
    by (simp add: new_Map_def set_gridCoords)
  then obtain u where u: "querySelector (0, 0) (tiles ?x) = Some u"
    using querySelector_present by blast
  have q: "querySelector (0, 0) (tiles (copySelected ?x)) = Some (classList_remove_selected u)"
    unfolding t by (simp add: querySelector_updateTile u)
  then have unmarked: "map_option selected (querySelector (0, 0) (tiles (copySelected ?x))) = Some False"
    by (simp add: classList_remove_selected_def)
  let ?c = "classList_remove_selected u"
  from q have mem: "?c \<in> set (tiles (copySelected ?x))"
    by (rule querySelector_mem)
  from q have at: "tileCoords ?c = (0, 0)"
    by (rule querySelector_coords)
  have nsel: "\<not> selected ?c"
    by (simp add: classList_remove_selected_def)
  have "\<not> markerIffSelected (copySelected ?x)"
  proof
    assume "markerIffSelected (copySelected ?x)"
    with mem have "selected ?c \<longleftrightarrow> tileCoords ?c \<in> set [(0, 0)]"
      unfolding markerIffSelected_def sel' by blast
    with at nsel show False
      by simp
  qed
  with inv sel sel' unmarked show ?thesis
    by simp
qed

theorem copy_keeps_selection_without_marker_witness:
  "selectedTiles (copySelected (clickAt (5, 5) (new_Map ''sprites.png''))) = [(0, 0)] \<and>
   map_option selected
     (querySelector (0, 0) (tiles (copySelected (clickAt (5, 5) (new_Map ''sprites.png''))))) =
     Some False"
  using copy_keeps_selection_without_marker by simp

section \<open>Copy and cut\<close>

lemma fold_updateTile:
  assumes "\<And>t. tileCoords (f t) = tileCoords t" and "\<And>t. f (f t) = f t"
  shows "fold (\<lambda>rc. updateTile rc f) rcs ts =
           map (\<lambda>t. if tileCoords t \<in> set rcs then f t else t) ts"
proof (induction rcs arbitrary: ts)
  case Nil
  show ?case by simp
next
  case (Cons rc rcs)
  have "fold (\<lambda>rc. updateTile rc f) (rc # rcs) ts =
        map (\<lambda>t. if tileCoords t \<in> set rcs then f t else t) (updateTile rc f ts)"
    by (simp add: Cons.IH)
  also have "\<dots> = map (\<lambda>t. if tileCoords t \<in> set (rc # rcs) then f t else t) ts"
    by (simp add: updateTile_def assms)
  finally show ?case .
qed

lemma fold_unmark:
  "fold (\<lambda>rc. updateTile rc classList_remove_selected) rcs ts =
     map (\<lambda>t. if tileCoords t \<in> set rcs then classList_remove_selected t else t) ts"
  by (rule fold_updateTile) (simp_all add: classList_remove_selected_def tileCoords_def)

lemma fold_clear:
  "fold (\<lambda>rc. updateTile rc (set_background v)) rcs ts =
     map (\<lambda>t. if tileCoords t \<in> set rcs then set_background v t else t) ts"
  by (rule fold_updateTile) (simp_all add: set_background_def tileCoords_def)

lemma tiles_copySelected:
  "tiles (copySelected s) =
     map (\<lambda>t. if tileCoords t \<in> set (selectedTiles s) then classList_remove_selected t else t)
       (tiles s)"
  by (simp add: copySelected_def fold_unmark)

lemma tileState_classList_remove [simp]:
  "tileState (classList_remove_selected t) = tileState t"
  by (simp add: tileState_def classList_remove_selected_def)

lemma copySelected_keeps_sprites:
  "map tileState (tiles (copySelected s)) = map tileState (tiles s)"
  by (simp add: tiles_copySelected comp_def if_distrib [of tileState])

lemma selectedTiles_copySelected [simp]: "selectedTiles (copySelected s) = selectedTiles s"
  by (simp add: copySelected_def)

lemma cutSelected_refines: "cutSelected s = cutSelected_spec s"
  by (simp add: cutSelected_def cutSelected_spec_def Let_def fold_clear clearSprite_def
      cong: if_cong)

text \<open>
  C5. \<open>copySelected\<close> leaves the coordinates and both style properties of every tile
  as they were. \<open>cutSelected\<close> is the spec's cut: the copy, then the sprite reference
  cleared on each tile that was selected at the call, then one snapshot committed; a
  cleared tile exports as the empty position, and the history gains exactly the snapshot
  of the grid after the clearing.
\<close>

theorem cut_is_copy_clear_commit:
  "map tileState (tiles (copySelected s)) = map tileState (tiles s) \<and>
   cutSelected s = cutSelected_spec s \<and>
   (\<forall>t \<in> set (tiles (cutSelected s)).
      tileCoords t \<in> set (selectedTiles s) \<longrightarrow> computedBackgroundPosition t = ''0% 0%'') \<and>
   history (cutSelected s) =
     slice0 (history s) (currentHistoryIndex s + 1) @ [map tileState (tiles (cutSelected s))]"
proof -
  have cleared: "computedBackgroundPosition t = ''0% 0%''"
    if "t \<in> set (tiles (cutSelected s))" and "tileCoords t \<in> set (selectedTiles s)" for t
    using that
    by (auto simp: cutSelected_refines cutSelected_spec_def Let_def addToHistory_def
        clearSprite_def set_background_def computedBackgroundPosition_def)
  have hist: "history (cutSelected s) =
     slice0 (history s) (currentHistoryIndex s + 1) @ [map tileState (tiles (cutSelected s))]"
    by (simp add: cutSelected_def Let_def addToHistory_def copySelected_def)
  from cleared hist show ?thesis
    by (simp add: copySelected_keeps_sprites cutSelected_refines [symmetric])
qed

theorem cut_is_copy_clear_commit_witness:
  "cutSelected_spec
     ((init 1 2 ''s.png'')\<lparr>selectedTiles := [(0, 1)],
        tiles := [createTile (0, 0),
                  \<lparr>data_row = 0, data_col = 1, background = ''url(s.png)'',
                   backgroundPosition = ''-1px -1px'', selected = True\<rparr>]\<rparr>) =
   (init 1 2 ''s.png'')\<lparr>selectedTiles := [(0, 1)],
      tiles := [createTile (0, 0),
                \<lparr>data_row = 0, data_col = 1, background = ''transparent'',
                 backgroundPosition = ''0% 0%'', selected = False\<rparr>],
      coppiedTiles := [(0, 1)],
      coppiedTileData := [\<lparr>row = 0, col = 1, bg = ''url(s.png)'', bgPos = ''-1px -1px''\<rparr>],
      history := [[\<lparr>row = 0, col = 0, bg = [], bgPos = []\<rparr>,
                   \<lparr>row = 0, col = 1, bg = ''transparent'', bgPos = ''0% 0%''\<rparr>]],
      currentHistoryIndex := 0\<rparr>"
proof -
  let ?w = "(init 1 2 ''s.png'')\<lparr>selectedTiles := [(0, 1)],
        tiles := [createTile (0, 0),
                  \<lparr>data_row = 0, data_col = 1, background = ''url(s.png)'',
                   backgroundPosition = ''-1px -1px'', selected = True\<rparr>]\<rparr>"
  have "cutSelected_spec ?w = cutSelected ?w"
    using cut_is_copy_clear_commit [of ?w] by simp
  then show ?thesis
    by (simp add: cutSelected_def copySelected_def addToHistory_def slice0_def Let_def init_def
        updateTile_def tileCoords_def createTile_def deref_def querySelector_def tileState_def
        set_background_def classList_remove_selected_def)
qed

text \<open>
  With nothing selected, \<open>drawMap\<close> returns at once and \<open>copySelected\<close> touches no
  tile and no history entry (it does empty the clipboard).
\<close>

lemma drawMap_empty_selection: "selectedTiles s = [] \<Longrightarrow> drawMap sprite s = Inr s"
  by (simp add: drawMap_def)

lemma copySelected_empty_selection:
  "selectedTiles s = [] \<Longrightarrow>
   tiles (copySelected s) = tiles s \<and> history (copySelected s) = history s \<and>
   currentHistoryIndex (copySelected s) = currentHistoryIndex s \<and>
   coppiedTileData (copySelected s) = []"
  by (simp add: copySelected_def)

text \<open>
  C7 at a new editor, where nothing is selected: \<open>cutSelected\<close> changes no tile, but
  it does commit a snapshot, the history going from empty to one entry.
\<close>

theorem cut_empty_selection_commits:
  "selectedTiles (new_Map ''sprites.png'') = [] \<and>
   history (new_Map ''sprites.png'') = [] \<and>
   tiles (cutSelected (new_Map ''sprites.png'')) = tiles (new_Map ''sprites.png'') \<and>
   length (history (cutSelected (new_Map ''sprites.png''))) = 1"
  by (simp add: new_Map_def cutSelected_def copySelected_def addToHistory_def slice0_def Let_def)

section \<open>Drawing with auto-advance\<close>

lemma compareTiles_le: "compareTiles a b \<le> 0 \<longleftrightarrow> rowMajorLe a b"
  by (auto simp: compareTiles_def rowMajorLe_def Let_def)

lemma rowMajorLe_total: "rowMajorLe a b \<or> rowMajorLe b a"
  by (auto simp: rowMajorLe_def)

lemma rowMajorLe_trans: "rowMajorLe a b \<Longrightarrow> rowMajorLe b c \<Longrightarrow> rowMajorLe a c"
  by (auto simp: rowMajorLe_def)

lemma mset_insertBy [simp]: "mset (insertBy cmp a xs) = add_mset a (mset xs)"
  by (induction xs) simp_all

lemma mset_sortBy [simp]: "mset (sortBy cmp xs) = mset xs"
  by (induction xs) simp_all

lemma set_insertBy [simp]: "set (insertBy cmp a xs) = insert a (set xs)"
  by (induction xs) auto

lemma set_sortBy [simp]: "set (sortBy cmp xs) = set xs"
  by (induction xs) simp_all

lemma sortBy_Nil_iff [simp]: "sortBy cmp xs = [] \<longleftrightarrow> xs = []"
  by (metis mset_sortBy mset_zero_iff)

lemma sorted_insertBy:
  "sorted_wrt rowMajorLe xs \<Longrightarrow> sorted_wrt rowMajorLe (insertBy compareTiles a xs)"
proof (induction xs)
  case Nil
  show ?case by simp
next
  case (Cons b xs)
  show ?case
  proof (cases "compareTiles a b \<le> 0")
    case True
    then have ab: "rowMajorLe a b"
      by (simp add: compareTiles_le)
    with Cons.prems have "\<forall>x \<in> set xs. rowMajorLe a x"
      by (auto intro: rowMajorLe_trans)
    with True ab Cons.prems show ?thesis
      by simp
  next
    case False
    then have "rowMajorLe b a"
      using rowMajorLe_total [of a b] by (simp add: compareTiles_le)
    with False Cons show ?thesis
      by auto
  qed
qed

lemma sorted_sortBy: "sorted_wrt rowMajorLe (sortBy compareTiles xs)"
  by (induction xs) (simp_all add: sorted_insertBy)

lemma in_gridCoords: "(r, c) \<in> set (gridCoords R C) \<longleftrightarrow> 0 \<le> r \<and> r < R \<and> 0 \<le> c \<and> c < C"
  by (auto simp: set_gridCoords)

lemma drawTile_idem [simp]: "drawTile sheet p (drawTile sheet p t) = drawTile sheet p t"
  by (simp add: drawTile_def set_background_def set_backgroundPosition_def
      classList_remove_selected_def)

lemma fold_draw:
  "fold (\<lambda>rc. updateTile rc (drawTile sheet p)) rcs ts =
     map (\<lambda>t. if tileCoords t \<in> set rcs then drawTile sheet p t else t) ts"
  by (rule fold_updateTile) simp_all

lemma selectNextTile_grid:
  assumes grid: "map tileCoords (tiles s) = gridCoords (mapRowsCount s) (mapColsCount s)"
    and ne: "selectedTiles s \<noteq> []"
    and inside: "last (selectedTiles s) \<in> set (gridCoords (mapRowsCount s) (mapColsCount s))"
  shows "\<exists>s'. selectNextTile s = Inr s' \<and>
           selectedTiles s' = nextCell (mapRowsCount s) (mapColsCount s) (last (selectedTiles s)) \<and>
           tiles s' = fold (\<lambda>rc. updateTile rc classList_add_selected) (selectedTiles s') (tiles s) \<and>
           s' = s\<lparr>selectedTiles := selectedTiles s', tiles := tiles s'\<rparr>"
proof -
  obtain r c where last: "last (selectedTiles s) = (r, c)"
    by (cases "last (selectedTiles s)")
  from inside have rng: "0 \<le> r" "r < mapRowsCount s" "0 \<le> c" "c < mapColsCount s"
    by (simp_all add: last in_gridCoords)
  from ne obtain a as where sel: "selectedTiles s = a # as"
    by (cases "selectedTiles s") auto
  have found: "\<exists>t. querySelector rc (tiles s) = Some t \<and> tileCoords t = rc"
    if "rc \<in> set (gridCoords (mapRowsCount s) (mapColsCount s))" for rc
  proof -
    from that grid have "rc \<in> set (map tileCoords (tiles s))"
      by simp
    then obtain t where "querySelector rc (tiles s) = Some t"
      using querySelector_present by blast
    then show ?thesis
      by (auto dest: querySelector_coords)
  qed
  show ?thesis
  proof (cases "c \<ge> mapColsCount s - 1")
    case True
    with rng have c: "c = mapColsCount s - 1"
      by simp
    show ?thesis
    proof (cases "r \<ge> mapRowsCount s - 1")
      case True
      with rng have "r = mapRowsCount s - 1"
        by simp
      with c show ?thesis
        using last by (simp add: selectNextTile_def Let_def nextCell_def sel)
    next
      case False
      with rng have "(r + 1, 0) \<in> set (gridCoords (mapRowsCount s) (mapColsCount s))"
        by (simp add: in_gridCoords)
      from found [OF this] obtain t where "querySelector (r + 1, 0) (tiles s) = Some t"
        and "tileCoords t = (r + 1, 0)"
        by blast
      with False c show ?thesis
        using last by (simp add: selectNextTile_def Let_def nextCell_def sel)
    qed
  next
    case False
    with rng have "(r, c + 1) \<in> set (gridCoords (mapRowsCount s) (mapColsCount s))"
      by (simp add: in_gridCoords)
    from found [OF this] obtain t where "querySelector (r, c + 1) (tiles s) = Some t"
      and "tileCoords t = (r, c + 1)"
      by blast
    with False show ?thesis
      using last by (simp add: selectNextTile_def Let_def nextCell_def sel)
  qed
qed

lemma frame_addToHistory [simp]:
  "tiles (addToHistory s) = tiles s"
  "selectedTiles (addToHistory s) = selectedTiles s"
  "coppiedTileData (addToHistory s) = coppiedTileData s"
  "mapRowsCount (addToHistory s) = mapRowsCount s"
  "mapColsCount (addToHistory s) = mapColsCount s"
  by (simp_all add: addToHistory_def Let_def)

lemma fold_mark:
  "fold (\<lambda>rc. updateTile rc classList_add_selected) rcs ts =
     map (\<lambda>t. if tileCoords t \<in> set rcs then classList_add_selected t else t) ts"
  by (rule fold_updateTile) (simp_all add: classList_add_selected_def tileCoords_def)

lemma drawMap_auto_grid:
  assumes auto: "isAutoEnabled s" and ne: "selectedTiles s \<noteq> []" and wf: "wellFormed s"
  shows "\<exists>s2. drawMap p s = Inr (addToHistory s2) \<and>
           selectedTiles s2 =
             nextCell (mapRowsCount s) (mapColsCount s)
               (last (sortBy compareTiles (selectedTiles s))) \<and>
           tiles s2 =
             fold (\<lambda>rc. updateTile rc classList_add_selected) (selectedTiles s2)
               (map (\<lambda>t. if tileCoords t \<in> set (selectedTiles s)
                           then drawTile (sprites s) p t else t) (tiles s))"
proof -
  let ?sorted = "sortBy compareTiles (selectedTiles s)"
  let ?drawn = "fold (\<lambda>rc. updateTile rc (drawTile (sprites s) p)) ?sorted (tiles s)"
  let ?s1 = "s\<lparr>selectedTiles := ?sorted, tiles := ?drawn\<rparr>"
  from wf have grid: "map tileCoords (tiles s) = gridCoords (mapRowsCount s) (mapColsCount s)"
    and sub: "set (selectedTiles s) \<subseteq> set (gridCoords (mapRowsCount s) (mapColsCount s))"
    by (simp_all add: wellFormed_def)
  have drawn: "?drawn = map (\<lambda>t. if tileCoords t \<in> set (selectedTiles s)
                                    then drawTile (sprites s) p t else t) (tiles s)"
    by (simp add: fold_draw)
  have grid1: "map tileCoords (tiles ?s1) = gridCoords (mapRowsCount ?s1) (mapColsCount ?s1)"
    by (simp add: drawn comp_def if_distrib [of tileCoords] grid [symmetric])
  have ne1: "selectedTiles ?s1 \<noteq> []"
    using ne by simp
  from ne have "?sorted \<noteq> []"
    by simp
  then have "last ?sorted \<in> set ?sorted"
    by (rule last_in_set)
  with sub have inside: "last (selectedTiles ?s1) \<in>
      set (gridCoords (mapRowsCount ?s1) (mapColsCount ?s1))"
    by auto
  from selectNextTile_grid [OF grid1 ne1 inside] obtain s2 where
    nxt: "selectNextTile ?s1 = Inr s2"
    and sel2: "selectedTiles s2 = nextCell (mapRowsCount s) (mapColsCount s) (last ?sorted)"
    and tiles2: "tiles s2 = fold (\<lambda>rc. updateTile rc classList_add_selected) (selectedTiles s2) ?drawn"
    by auto
  have run: "drawMap p s = Inr (addToHistory s2)"
    using auto ne nxt by (simp add: drawMap_def Let_def)
  from run sel2 tiles2 show ?thesis
    unfolding drawn by blast
qed

text \<open>
  C4. With auto-advance enabled, a non-empty selection of tiles of the grid is drawn in
  row-major order: the list \<open>drawMap\<close> walks is sorted by row, then column, and is a
  permutation of the selection. Every selected tile gets the sprite. Afterwards the
  selection is the cell that follows the last tile walked, in the same row or at column
  0 of the next row, and it is empty when that tile is the last cell of the grid. Every
  reachable state has its tiles and its selection in the grid (\<open>reachable_wellFormed\<close>
  below).
\<close>

theorem auto_advance:
  assumes auto: "isAutoEnabled s" and ne: "selectedTiles s \<noteq> []" and wf: "wellFormed s"
  shows "\<exists>s'. drawMap p s = Inr s' \<and>
           sorted_wrt rowMajorLe (sortBy compareTiles (selectedTiles s)) \<and>
           mset (sortBy compareTiles (selectedTiles s)) = mset (selectedTiles s) \<and>
           selectedTiles s' =
             nextCell (mapRowsCount s) (mapColsCount s)
               (last (sortBy compareTiles (selectedTiles s))) \<and>
           length (selectedTiles s') \<le> 1 \<and>
           (\<forall>t \<in> set (tiles s').
              tileCoords t \<in> set (selectedTiles s) \<longrightarrow>
                background t = url (sprites s) \<and> backgroundPosition t = p)"
proof -
  from drawMap_auto_grid [OF assms, of p] obtain s2 where
    run: "drawMap p s = Inr (addToHistory s2)"
    and sel2: "selectedTiles s2 =
      nextCell (mapRowsCount s) (mapColsCount s) (last (sortBy compareTiles (selectedTiles s)))"
    and tiles2: "tiles s2 =
      fold (\<lambda>rc. updateTile rc classList_add_selected) (selectedTiles s2)
        (map (\<lambda>t. if tileCoords t \<in> set (selectedTiles s)
                    then drawTile (sprites s) p t else t) (tiles s))"
    by blast
  have styled: "background t = url (sprites s) \<and> backgroundPosition t = p"
    if "t \<in> set (tiles s2)" and "tileCoords t \<in> set (selectedTiles s)" for t
    using that unfolding tiles2 fold_mark
    by (auto simp: drawTile_def set_background_def set_backgroundPosition_def
        classList_remove_selected_def classList_add_selected_def url_def tileCoords_def)
  from run sel2 styled show ?thesis
    by (simp add: sorted_sortBy nextCell_def)
qed

theorem auto_advance_witness:
  "\<exists>s'. drawMap ''-1px -1px''
          ((init 2 2 ''s.png'')\<lparr>selectedTiles := [(0, 1), (0, 0)], isAutoEnabled := True\<rparr>) = Inr s' \<and>
        selectedTiles s' = [(1, 0)]"
proof -
  let ?w = "(init 2 2 ''s.png'')\<lparr>selectedTiles := [(0, 1), (0, 0)], isAutoEnabled := True\<rparr>"
  have g: "gridCoords 2 2 = [(0, 0), (0, 1), (1, 0), (1, 1)]"
    by (simp add: gridCoords_def upto_rec1)
  have w: "isAutoEnabled ?w" "selectedTiles ?w \<noteq> []" "wellFormed ?w"
    by (simp_all add: wellFormed_def g)
  have "nextCell (mapRowsCount ?w) (mapColsCount ?w)
          (last (sortBy compareTiles (selectedTiles ?w))) = [(1, 0)]"
    by (simp add: nextCell_def compareTiles_def)
  with auto_advance [OF w, of "''-1px -1px''"] show ?thesis
    by auto
qed

section \<open>Paste\<close>

lemma setStyle_fields: "setStyle d t = t\<lparr>background := bg d, backgroundPosition := bgPos d\<rparr>"
  by (simp add: setStyle_def set_background_def set_backgroundPosition_def)

lemma applyAll_agreeing:
  assumes "\<forall>e \<in> set ds. k e = tileCoords t \<longrightarrow> bg e = b \<and> bgPos e = q"
    and "\<exists>e \<in> set ds. k e = tileCoords t"
  shows "applyAll k ds t = t\<lparr>background := b, backgroundPosition := q\<rparr>"
  using assms
proof (induction ds arbitrary: t)
  case Nil
  then show ?case by simp
next
  case (Cons e ds)
  let ?t1 = "if tileCoords t = k e then setStyle e t else t"
  have step: "applyAll k (e # ds) t = applyAll k ds ?t1"
    by (rule applyAll_Cons)
  have same: "tileCoords ?t1 = tileCoords t"
    by simp
  have over: "?t1\<lparr>background := b, backgroundPosition := q\<rparr> =
              t\<lparr>background := b, backgroundPosition := q\<rparr>"
    by (simp add: setStyle_fields)
  show ?case
  proof (cases "\<exists>e' \<in> set ds. k e' = tileCoords t")
    case True
    have "applyAll k ds ?t1 = ?t1\<lparr>background := b, backgroundPosition := q\<rparr>"
    proof (rule Cons.IH)
      show "\<forall>e' \<in> set ds. k e' = tileCoords ?t1 \<longrightarrow> bg e' = b \<and> bgPos e' = q"
        using Cons.prems(1) by (simp only: same) simp
      show "\<exists>e' \<in> set ds. k e' = tileCoords ?t1"
        using True by (simp only: same)
    qed
    with step over show ?thesis
      by simp
  next
    case False
    with Cons.prems(2) have hit: "k e = tileCoords t"
      by auto
    with Cons.prems(1) have style: "bg e = b" "bgPos e = q"
      by simp_all
    from False have "tileCoords ?t1 \<notin> k ` set ds"
      unfolding same by auto
    then have "applyAll k ds ?t1 = ?t1"
      by (rule applyAll_absent)
    with step hit style show ?thesis
      by (simp add: setStyle_fields)
  qed
qed

lemma pasteTarget_eq:
  "pasteTarget anchor ds d = pasteTarget anchor ds e \<longleftrightarrow> row d = row e \<and> col d = col e"
  by (auto simp: pasteTarget_def)

lemma clipboardFunctional_copySelected: "clipboardFunctional (coppiedTileData (copySelected s))"
  by (auto simp: clipboardFunctional_def copySelected_def)

lemma clipboardFunctional_init: "clipboardFunctional (coppiedTileData (init R C sheet))"
  by (simp add: clipboardFunctional_def)

lemma tiles_paste:
  assumes "coppiedTileData s \<noteq> []" and "tileUnderCoursor s = Some anchor"
  shows "tiles (paste s) =
           map (applyAll (pasteTarget anchor (coppiedTileData s)) (coppiedTileData s)) (tiles s)"
proof -
  have k: "(\<lambda>d. (fst anchor + (row d - row (hd (coppiedTileData s))),
                  snd anchor + (col d - col (hd (coppiedTileData s))))) =
           pasteTarget anchor (coppiedTileData s)"
    by (rule ext) (simp add: pasteTarget_def)
  from assms show ?thesis
    by (simp add: paste_def Let_def fold_applyTileData k)
qed

lemma history_paste:
  assumes "coppiedTileData s \<noteq> []" and "tileUnderCoursor s = Some anchor"
  shows "history (paste s) =
           slice0 (history s) (currentHistoryIndex s + 1) @ [map tileState (tiles (paste s))] \<and>
         currentHistoryIndex (paste s) = int (length (history (paste s))) - 1"
  using assms by (simp add: paste_def Let_def addToHistory_def)

lemma paste_written:
  assumes fn: "clipboardFunctional ds" and d: "d \<in> set ds"
    and at: "pasteTarget anchor ds d = tileCoords t"
  shows "applyAll (pasteTarget anchor ds) ds t =
           t\<lparr>background := bg d, backgroundPosition := bgPos d\<rparr>"
proof (rule applyAll_agreeing)
  show "\<forall>e \<in> set ds. pasteTarget anchor ds e = tileCoords t \<longrightarrow> bg e = bg d \<and> bgPos e = bgPos d"
  proof (intro ballI impI)
    fix e assume e: "e \<in> set ds" and "pasteTarget anchor ds e = tileCoords t"
    with at have "pasteTarget anchor ds e = pasteTarget anchor ds d"
      by simp
    then have "row e = row d \<and> col e = col d"
      by (simp only: pasteTarget_eq)
    with fn e d show "bg e = bg d \<and> bgPos e = bgPos d"
      unfolding clipboardFunctional_def by blast
  qed
  from d at show "\<exists>e \<in> set ds. pasteTarget anchor ds e = tileCoords t"
    by blast
qed

text \<open>
  C3. \<open>paste\<close> returns the state unchanged when the clipboard is empty or no tile was
  hovered yet. Otherwise no tile is added or removed; a tile that is the target of no
  clipboard entry is unchanged, whatever the other entries do, so an entry whose target
  lies outside the grid has no effect; a tile that is the target (anchor plus the entry's
  offset from the first entry) of an entry has that entry's two style values, given that
  entries captured from one tile agree, as the entries \<open>copySelected\<close> captures do
  (\<open>reachable_clipboardFunctional\<close> below); and exactly one snapshot, of the grid after
  all writes, is appended at the cursor.
\<close>

theorem paste_targets:
  "(coppiedTileData s = [] \<or> tileUnderCoursor s = None \<longrightarrow> paste s = s) \<and>
   (coppiedTileData s \<noteq> [] \<and> tileUnderCoursor s = Some anchor \<longrightarrow>
      length (tiles (paste s)) = length (tiles s) \<and>
      (\<forall>(t, t') \<in> set (zip (tiles s) (tiles (paste s))).
         (tileCoords t \<notin> pasteTarget anchor (coppiedTileData s) ` set (coppiedTileData s) \<longrightarrow>
            t' = t) \<and>
         (clipboardFunctional (coppiedTileData s) \<longrightarrow>
            (\<forall>d \<in> set (coppiedTileData s).
               pasteTarget anchor (coppiedTileData s) d = tileCoords t \<longrightarrow>
                 t' = t\<lparr>background := bg d, backgroundPosition := bgPos d\<rparr>))) \<and>
      history (paste s) =
        slice0 (history s) (currentHistoryIndex s + 1) @ [map tileState (tiles (paste s))] \<and>
      currentHistoryIndex (paste s) = int (length (history (paste s))) - 1)"
  (is "?noop \<and> (?pre \<longrightarrow> ?len \<and> ?cells \<and> ?hist \<and> ?cursor)")
proof -
  let ?ds = "coppiedTileData s"
  let ?k = "pasteTarget anchor ?ds"
  have noop: ?noop
    by (auto simp: paste_def)
  have effect: "?len \<and> ?cells \<and> ?hist \<and> ?cursor"
    if ne: "?ds \<noteq> []" and anchor: "tileUnderCoursor s = Some anchor"
  proof (intro conjI)
    show ?len
      by (simp add: tiles_paste [OF ne anchor])
    have pairs: "zip (tiles s) (tiles (paste s)) = map (\<lambda>t. (t, applyAll ?k ?ds t)) (tiles s)"
      by (simp add: tiles_paste [OF ne anchor] zip_map2 zip_same_conv_map)
    show ?cells
      unfolding pairs
    proof (clarsimp, intro conjI impI ballI)
      fix t assume "tileCoords t \<notin> ?k ` set ?ds"
      then show "applyAll ?k ?ds t = t"
        by (rule applyAll_absent)
    next
      fix t d assume "clipboardFunctional ?ds" "d \<in> set ?ds" "?k d = tileCoords t"
      then show "applyAll ?k ?ds t = t\<lparr>background := bg d, backgroundPosition := bgPos d\<rparr>"
        by (rule paste_written)
    qed
    from history_paste [OF ne anchor] show ?hist and ?cursor
      by simp_all
  qed
  have "?pre \<longrightarrow> ?len \<and> ?cells \<and> ?hist \<and> ?cursor"
  proof
    assume ?pre
    then have "?ds \<noteq> []" and "tileUnderCoursor s = Some anchor"
      by simp_all
    then show "?len \<and> ?cells \<and> ?hist \<and> ?cursor"
      by (rule effect)
  qed
  with noop show ?thesis ..
qed

theorem paste_targets_witness:
  "tiles (paste ((init 2 2 ''s.png'')
     \<lparr>coppiedTileData := [\<lparr>row = 0, col = 0, bg = ''url(s.png)'', bgPos = ''-1px -1px''\<rparr>,
                          \<lparr>row = 0, col = 1, bg = ''url(s.png)'', bgPos = ''-49px -1px''\<rparr>],
       tileUnderCoursor := Some (1, 1)\<rparr>)) =
   [createTile (0, 0), createTile (0, 1), createTile (1, 0),
    \<lparr>data_row = 1, data_col = 1, background = ''url(s.png)'',
     backgroundPosition = ''-1px -1px'', selected = False\<rparr>] \<and>
   length (history (paste ((init 2 2 ''s.png'')
     \<lparr>coppiedTileData := [\<lparr>row = 0, col = 0, bg = ''url(s.png)'', bgPos = ''-1px -1px''\<rparr>,
                          \<lparr>row = 0, col = 1, bg = ''url(s.png)'', bgPos = ''-49px -1px''\<rparr>],
       tileUnderCoursor := Some (1, 1)\<rparr>))) = 1"
proof -
  let ?ds = "[\<lparr>row = 0, col = 0, bg = ''url(s.png)'', bgPos = ''-1px -1px''\<rparr>,
              \<lparr>row = 0, col = 1, bg = ''url(s.png)'', bgPos = ''-49px -1px''\<rparr>]"
  let ?w = "(init 2 2 ''s.png'')\<lparr>coppiedTileData := ?ds, tileUnderCoursor := Some (1, 1)\<rparr>"
  have g: "gridCoords 2 2 = [(0, 0), (0, 1), (1, 0), (1, 1)]"
    by (simp add: gridCoords_def upto_rec1)
  have pre: "coppiedTileData ?w \<noteq> [] \<and> tileUnderCoursor ?w = Some (1, 1)"
    by simp
  have fn: "clipboardFunctional (coppiedTileData ?w)"
    by (simp add: clipboardFunctional_def)
  have t: "tiles ?w = [createTile (0, 0), createTile (0, 1), createTile (1, 0), createTile (1, 1)]"
    by (simp add: init_def g)
  from paste_targets [of ?w "(1, 1)"] pre
  have len: "length (tiles (paste ?w)) = length (tiles ?w)"
    and cells: "\<forall>(t, t') \<in> set (zip (tiles ?w) (tiles (paste ?w))).
         (tileCoords t \<notin> pasteTarget (1, 1) (coppiedTileData ?w) ` set (coppiedTileData ?w) \<longrightarrow>
            t' = t) \<and>
         (clipboardFunctional (coppiedTileData ?w) \<longrightarrow>
            (\<forall>d \<in> set (coppiedTileData ?w).
               pasteTarget (1, 1) (coppiedTileData ?w) d = tileCoords t \<longrightarrow>
                 t' = t\<lparr>background := bg d, backgroundPosition := bgPos d\<rparr>))"
    and hist: "history (paste ?w) =
        slice0 (history ?w) (currentHistoryIndex ?w + 1) @ [map tileState (tiles (paste ?w))]"
    by blast+
  from len t obtain a b c d where p: "tiles (paste ?w) = [a, b, c, d]"
    by (auto simp: length_Suc_conv)
  from cells fn have "a = createTile (0, 0)" "b = createTile (0, 1)" "c = createTile (1, 0)"
    "d = (createTile (1, 1))\<lparr>background := ''url(s.png)'', backgroundPosition := ''-1px -1px''\<rparr>"
    unfolding p t by (simp_all add: pasteTarget_def)
  with p hist show ?thesis
    by (simp add: createTile_def slice0_def)
qed

section \<open>Export and import\<close>

lemma parseNat_snoc: "parseNat (cs @ [c]) = 10 * parseNat cs + (of_char c - 48)"
  by (simp add: parseNat_def)

lemma parseNat_digits: "parseNat (digits n) = n"
proof (induction n rule: digits.induct)
  case (1 n)
  show ?case
  proof (cases "n < 10")
    case True
    then show ?thesis
      by (simp add: digits.simps [of n] parseNat_def)
  next
    case False
    with 1 have "parseNat (digits (n div 10)) = n div 10"
      by simp
    with False show ?thesis
      by (simp add: digits.simps [of n] parseNat_snoc)
  qed
qed

lemma digits_inject: "digits m = digits n \<longleftrightarrow> m = n"
  by (metis parseNat_digits)

lemma digit_not_minus: "d < 10 \<Longrightarrow> char_of (48 + d) \<noteq> CHR ''-''" for d :: nat
proof
  assume "d < 10" and "char_of (48 + d) = CHR ''-''"
  then have "of_char (char_of (48 + d) :: char) = (of_char CHR ''-'' :: nat)"
    by simp
  with \<open>d < 10\<close> show False
    by simp
qed

lemma minus_notin_digits: "CHR ''-'' \<notin> set (digits n)"
proof (induction n rule: digits.induct)
  case (1 n)
  show ?case
  proof (cases "n < 10")
    case True
    then show ?thesis
      using digit_not_minus [of n] by (auto simp: digits.simps [of n])
  next
    case False
    with 1 have "CHR ''-'' \<notin> set (digits (n div 10))"
      by simp
    with False show ?thesis
      using digit_not_minus [of "n mod 10"] by (auto simp: digits.simps [of n])
  qed
qed

lemma toString_inject: "toString i = toString j \<longleftrightarrow> i = j"
proof
  assume eq: "toString i = toString j"
  show "i = j"
  proof (cases "i < 0"; cases "j < 0")
    assume "i < 0" "j < 0"
    with eq show ?thesis
      by (simp add: toString_def digits_inject)
  next
    assume "i < 0" "\<not> j < 0"
    with eq have "CHR ''-'' \<in> set (digits (nat j))"
      by (metis list.set_intros(1) toString_def)
    then show ?thesis
      by (simp add: minus_notin_digits)
  next
    assume "\<not> i < 0" "j < 0"
    with eq have "CHR ''-'' \<in> set (digits (nat i))"
      by (metis list.set_intros(1) toString_def)
    then show ?thesis
      by (simp add: minus_notin_digits)
  next
    assume "\<not> i < 0" "\<not> j < 0"
    with eq show ?thesis
      by (simp add: toString_def digits_inject)
  qed
qed simp

lemma createMapJSON_exportTile:
  "createMapJSON s = map (\<lambda>(index, t). exportTile index t) (enumerate 0 (tiles s))"
  by (simp add: createMapJSON_def exportTile_def)

lemma find_by_text:
  "find (\<lambda>u. toString (data_col u) = toString c \<and> toString (data_row u) = toString r) us =
     querySelector (r, c) us"
  by (simp add: querySelector_def tileCoords_def toString_inject conj_commute)

lemma digit_not_quote: "d < 10 \<Longrightarrow> char_of (48 + d) \<noteq> CHR 0x22" for d :: nat
proof
  assume "d < 10" and "char_of (48 + d) = CHR 0x22"
  then have "of_char (char_of (48 + d) :: char) = (of_char (CHR 0x22) :: nat)"
    by simp
  with \<open>d < 10\<close> show False
    by simp
qed

lemma quote_notin_digits: "CHR 0x22 \<notin> set (digits n)"
proof (induction n rule: digits.induct)
  case (1 n)
  show ?case
  proof (cases "n < 10")
    case True
    then show ?thesis
      using digit_not_quote [of n] by (auto simp: digits.simps [of n])
  next
    case False
    with 1 have "CHR 0x22 \<notin> set (digits (n div 10))"
      by simp
    with False show ?thesis
      using digit_not_quote [of "n mod 10"] by (auto simp: digits.simps [of n])
  qed
qed

lemma quote_notin_toString: "CHR 0x22 \<notin> set (toString i)"
  by (simp add: toString_def quote_notin_digits)

lemma append_eq_at_first:
  "q \<notin> set a \<Longrightarrow> q \<notin> set b \<Longrightarrow> a @ q # x = b @ q # y \<Longrightarrow> a = b \<and> x = y"
proof (induction a arbitrary: b)
  case Nil
  then show ?case
    by (cases b) auto
next
  case (Cons c a)
  then show ?case
    by (cases b) auto
qed

lemma tileSelector_inject:
  assumes "CHR 0x22 \<notin> set c" and "CHR 0x22 \<notin> set c'"
  shows "tileSelector c r = tileSelector c' r' \<longleftrightarrow> c = c' \<and> r = r'"
proof
  assume "tileSelector c r = tileSelector c' r'"
  then have "c @ CHR 0x22 # (''][data-row='' @ [CHR 0x22] @ r @ [CHR 0x22] @ '']'') =
             c' @ CHR 0x22 # (''][data-row='' @ [CHR 0x22] @ r' @ [CHR 0x22] @ '']'')"
    by (simp add: tileSelector_def)
  from append_eq_at_first [OF assms this] show "c = c' \<and> r = r'"
    by simp
qed simp

lemma matchesDecimal_decimalEngine: "matchesDecimal decimalEngine"
  by (simp add: matchesDecimal_def decimalEngine_def tileSelector_inject quote_notin_toString)

lemma importTile_exportTile:
  assumes "matchesDecimal engine"
  shows "importTile engine sheet (exportTile i t) us =
     Inr (if computedBackgroundPosition t = ''0% 0%'' then us
          else applyTileData (tileCoords t) (importedData sheet t) us)"
proof -
  have q: "engine (tileSelector (et_col (exportTile i t)) (et_row (exportTile i t))) us =
           Inr (querySelector (tileCoords t) us)"
    using assms by (simp add: matchesDecimal_def exportTile_def find_by_text tileCoords_def)
  show ?thesis
    unfolding importTile_def q
    by (simp add: applyTileData_def importedData_def exportTile_def split: option.splits)
qed

lemma forEach_importTile_enumerate:
  assumes "matchesDecimal engine"
  shows "forEach_importTile engine sheet
           (map (\<lambda>(index, t). exportTile index t) (enumerate n ts)) us =
         (None, fold (\<lambda>d. applyTileData (row d, col d) d)
            (map (importedData sheet)
               (filter (\<lambda>t. computedBackgroundPosition t \<noteq> ''0% 0%'') ts)) us)"
proof (induction ts arbitrary: n us)
  case Nil
  show ?case by simp
next
  case (Cons t ts)
  have key: "(row (importedData sheet t), col (importedData sheet t)) = tileCoords t"
    by (simp add: importedData_def tileCoords_def)
  show ?case
    by (simp add: Cons.IH importTile_exportTile [OF assms] key)
qed

lemma computedBackgroundPosition_nonempty [simp]: "computedBackgroundPosition t \<noteq> []"
  by (simp add: computedBackgroundPosition_def)

lemma imported_tile:
  assumes dist: "distinct (map tileCoords ts)" and t: "t \<in> set ts"
  shows "applyAll (\<lambda>d. (row d, col d))
           (map (importedData sheet) (filter (\<lambda>t. computedBackgroundPosition t \<noteq> ''0% 0%'') ts))
           (createTile (tileCoords t)) =
         (if computedBackgroundPosition t = ''0% 0%'' then createTile (tileCoords t)
          else (createTile (tileCoords t))\<lparr>background := url sheet,
                  backgroundPosition := computedBackgroundPosition t\<rparr>)"
proof -
  let ?k = "\<lambda>d. (row d, col d)"
  let ?kept = "filter (\<lambda>t. computedBackgroundPosition t \<noteq> ''0% 0%'') ts"
  let ?ds = "map (importedData sheet) ?kept"
  have k: "?k (importedData sheet u) = tileCoords u" for u
    by (simp add: importedData_def tileCoords_def)
  have only: "u = t" if "u \<in> set ts" and "tileCoords u = tileCoords t" for u
    using dist t that by (meson distinct_map inj_onD)
  show ?thesis
  proof (cases "computedBackgroundPosition t = ''0% 0%''")
    case True
    have "tileCoords (createTile (tileCoords t)) \<notin> ?k ` set ?ds"
    proof
      assume "tileCoords (createTile (tileCoords t)) \<in> ?k ` set ?ds"
      then obtain u where "u \<in> set ?kept" and "tileCoords u = tileCoords t"
        by (auto simp: k)
      with only True show False
        by auto
    qed
    then have "applyAll ?k ?ds (createTile (tileCoords t)) = createTile (tileCoords t)"
      by (rule applyAll_absent)
    with True show ?thesis
      by simp
  next
    case False
    have "applyAll ?k ?ds (createTile (tileCoords t)) =
          (createTile (tileCoords t))\<lparr>background := url sheet,
             backgroundPosition := computedBackgroundPosition t\<rparr>"
    proof (rule applyAll_agreeing)
      show "\<forall>e \<in> set ?ds. ?k e = tileCoords (createTile (tileCoords t)) \<longrightarrow>
              bg e = url sheet \<and> bgPos e = computedBackgroundPosition t"
      proof (intro ballI impI)
        fix e assume "e \<in> set ?ds" and at: "?k e = tileCoords (createTile (tileCoords t))"
        then obtain u where u: "u \<in> set ts" and e: "e = importedData sheet u"
          by auto
        from at have "tileCoords u = tileCoords t"
          unfolding e k by simp
        with u have "u = t"
          by (rule only)
        then show "bg e = url sheet \<and> bgPos e = computedBackgroundPosition t"
          by (simp add: e importedData_def)
      qed
      from t False have mem: "importedData sheet t \<in> set ?ds"
        by simp
      show "\<exists>e \<in> set ?ds. ?k e = tileCoords (createTile (tileCoords t))"
      proof (rule bexI [OF _ mem])
        show "?k (importedData sheet t) = tileCoords (createTile (tileCoords t))"
          by (simp add: k)
      qed
    qed
    with False show ?thesis
      by simp
  qed
qed

lemma export_cong:
  assumes "\<And>t. t \<in> set ts \<Longrightarrow> tileCoords (f t) = tileCoords t \<and>
             computedBackgroundPosition (f t) = computedBackgroundPosition t"
  shows "map (\<lambda>(index, t). exportTile index t) (enumerate n (map f ts)) =
         map (\<lambda>(index, t). exportTile index t) (enumerate n ts)"
  using assms
proof (induction ts arbitrary: n)
  case Nil
  show ?case by simp
next
  case (Cons t ts)
  from Cons.prems [of t] have "exportTile n (f t) = exportTile n t"
    by (simp add: exportTile_def tileCoords_def)
  with Cons show ?case
    by simp
qed

lemma imported_grid:
  assumes grid: "map tileCoords (tiles g) = gridCoords R C" and engine: "matchesDecimal engine"
  shows "loadMapFromFile engine (createMapJSON g) (init R C sheet) =
           (None, (init R C sheet)
              \<lparr>tiles := map (\<lambda>t. if computedBackgroundPosition t = ''0% 0%''
                                  then createTile (tileCoords t)
                                  else (createTile (tileCoords t))\<lparr>background := url sheet,
                                         backgroundPosition := computedBackgroundPosition t\<rparr>)
                          (tiles g)\<rparr>)"
proof -
  let ?ts = "tiles g"
  let ?k = "\<lambda>d. (row d, col d)"
  let ?ds = "map (importedData sheet) (filter (\<lambda>t. computedBackgroundPosition t \<noteq> ''0% 0%'') ?ts)"
  let ?f = "\<lambda>t. applyAll ?k ?ds (createTile (tileCoords t))"
  from grid have dist: "distinct (map tileCoords ?ts)"
    by (simp add: distinct_gridCoords)
  have fresh: "tiles (init R C sheet) = map (\<lambda>t. createTile (tileCoords t)) ?ts"
    by (simp add: init_def grid [symmetric])
  have "loadMapFromFile engine (createMapJSON g) (init R C sheet) =
          (None, (init R C sheet)\<lparr>tiles := map ?f ?ts\<rparr>)"
    by (simp add: loadMapFromFile_def createMapJSON_exportTile
        forEach_importTile_enumerate [OF engine] fold_applyTileData fresh)
  also have "map ?f ?ts =
      map (\<lambda>t. if computedBackgroundPosition t = ''0% 0%''
               then createTile (tileCoords t)
               else (createTile (tileCoords t))\<lparr>background := url sheet,
                      backgroundPosition := computedBackgroundPosition t\<rparr>) ?ts"
    by (rule map_cong [OF refl]) (rule imported_tile [OF dist])
  finally show ?thesis .
qed

lemma importTile_skips:
  assumes "et_bgPosition r = ''0% 0%'' \<or> engine (tileSelector (et_col r) (et_row r)) ts = Inr None"
  shows "importTile engine sheet r ts =
           (case engine (tileSelector (et_col r) (et_row r)) ts of
              Inl e \<Rightarrow> Inl e
            | Inr found \<Rightarrow> Inr ts)"
  using assms by (auto simp: importTile_def split: sum.splits option.splits)

text \<open>
  The other two outcomes of a record. A selector that throws ends the import at that
  record, with the tiles as the records before it left them. A selector that finds a
  tile, by whatever reading of the record's text, makes a record with another position
  than \<open>0% 0%\<close> write the sheet and the position onto that tile.
\<close>

lemma forEach_importTile_throws:
  "engine (tileSelector (et_col r) (et_row r)) ts = Inl e \<Longrightarrow>
   forEach_importTile engine sheet (r # rest) ts = (Some e, ts)"
  by (simp add: importTile_def)

lemma importTile_writes:
  "engine (tileSelector (et_col r) (et_row r)) ts = Inr (Some t) \<Longrightarrow>
   et_bgPosition r \<noteq> ''0% 0%'' \<Longrightarrow>
   importTile engine sheet r ts =
     Inr (updateTile (tileCoords t)
            (\<lambda>u. u\<lparr>background := url sheet, backgroundPosition := et_bgPosition r\<rparr>) ts)"
  by (simp add: importTile_def set_background_def set_backgroundPosition_def)

lemma history_loadMapFromFile:
  "history (snd (loadMapFromFile engine mapData s)) = history s \<and>
   currentHistoryIndex (snd (loadMapFromFile engine mapData s)) = currentHistoryIndex s"
  by (simp add: loadMapFromFile_def split: prod.splits)

lemma toString_0_1: "toString 0 = ''0''" "toString 1 = ''1''"
  by code_simp+

lemma coords_updateTile:
  "(\<And>t. tileCoords (f t) = tileCoords t) \<Longrightarrow>
   map tileCoords (updateTile rc f ts) = map tileCoords ts"
  by (induction ts) (simp_all add: updateTile_def)

text \<open>
  C2, as stated, fails. In a new editor, click the tile at (0, 0) and draw at the position
  \<open>0% 0%\<close>: the tile shows the sprite sheet at that position. Its export record holds
  \<open>0% 0%\<close>, which import skips: after the export is imported into a new editor no
  exception was thrown, and the tile at (0, 0) has no background at all.
\<close>

theorem roundtrip_loses_sheet_at_sentinel:
  "case drawMap ''0% 0%'' (clickAt (5, 5) (new_Map ''sprites.png'')) of
     Inl e \<Rightarrow> False
   | Inr g \<Rightarrow>
       map_option (\<lambda>t. (background t, backgroundPosition t)) (querySelector (0, 0) (tiles g)) =
         Some (''url(sprites.png)'', ''0% 0%'') \<and>
       fst (loadMapFromFile decimalEngine (createMapJSON g) (new_Map ''sprites.png'')) = None \<and>
       map_option (\<lambda>t. (background t, backgroundPosition t))
         (querySelector (0, 0)
            (tiles (snd (loadMapFromFile decimalEngine (createMapJSON g) (new_Map ''sprites.png''))))) =
         Some ([], [])"
proof -
  let ?n = "new_Map ''sprites.png''"
  let ?x = "clickAt (5, 5) ?n"
  let ?F = "\<lambda>t. if computedBackgroundPosition t = ''0% 0%''
                then createTile (tileCoords t)
                else (createTile (tileCoords t))\<lparr>background := url ''sprites.png'',
                       backgroundPosition := computedBackgroundPosition t\<rparr>"
  have sel: "selectedTiles ?x = [(0, 0)]"
    using selectedTiles_click_origin [of ?n 50 100] by (simp add: new_Map_def)
  have auto: "\<not> isAutoEnabled ?x"
    by (simp add: new_Map_def)
  from drawMap_single [OF sel auto, of "''0% 0%''"] obtain g where
    d: "drawMap ''0% 0%'' ?x = Inr g"
    and t: "tiles g = updateTile (0, 0) (drawTile (sprites ?x) ''0% 0%'') (tiles ?x)"
    by blast
  have origin: "(0, 0) \<in> set (gridCoords 50 100)"
    by (simp add: set_gridCoords)
  have gx: "map tileCoords (tiles ?x) = gridCoords 50 100"
    by (simp add: new_Map_def)
  with origin have "(0, 0) \<in> tileCoords ` set (tiles ?x)"
    by (metis list.set_map)
  then obtain u where u: "querySelector (0, 0) (tiles ?x) = Some u"
    using querySelector_None [of "(0, 0)" "tiles ?x"] by (cases "querySelector (0, 0) (tiles ?x)") auto
  let ?d = "drawTile (sprites ?x) ''0% 0%'' u"
  have q: "querySelector (0, 0) (tiles g) = Some ?d"
    unfolding t by (simp add: querySelector_updateTile u)
  have style: "background ?d = ''url(sprites.png)''" "backgroundPosition ?d = ''0% 0%''"
    by (simp_all add: drawTile_def set_background_def set_backgroundPosition_def
        classList_remove_selected_def url_def new_Map_def)
  from querySelector_coords [OF q] have at: "tileCoords ?d = (0, 0)" .
  have grid: "map tileCoords (tiles g) = gridCoords 50 100"
    unfolding t by (simp add: coords_updateTile new_Map_def)
  have load: "loadMapFromFile decimalEngine (createMapJSON g) ?n =
                (None, ?n\<lparr>tiles := map ?F (tiles g)\<rparr>)"
    unfolding new_Map_def by (rule imported_grid [OF grid matchesDecimal_decimalEngine])
  have cbp: "computedBackgroundPosition ?d = ''0% 0%''"
    unfolding computedBackgroundPosition_def style(2) by simp
  with at have Fd: "?F ?d = createTile (0, 0)"
    by simp
  have "querySelector (0, 0) (map ?F (tiles g)) = map_option ?F (querySelector (0, 0) (tiles g))"
    by (rule querySelector_map) (simp add: tileCoords_def createTile_def)
  also have "\<dots> = Some (?F ?d)"
    by (simp only: q option.map)
  also have "\<dots> = Some (createTile (0, 0))"
    by (simp only: Fd)
  finally have after: "querySelector (0, 0) (map ?F (tiles g)) = Some (createTile (0, 0))" .
  have before: "map_option (\<lambda>t. (background t, backgroundPosition t)) (querySelector (0, 0) (tiles g)) =
      Some (''url(sprites.png)'', ''0% 0%'')"
    by (simp only: q option.map style)
  have returned: "fst (loadMapFromFile decimalEngine (createMapJSON g) ?n) = None"
    by (simp only: load fst_conv)
  have "tiles (snd (loadMapFromFile decimalEngine (createMapJSON g) ?n)) = map ?F (tiles g)"
    by (simp only: load snd_conv) simp
  then have lost: "map_option (\<lambda>t. (background t, backgroundPosition t))
         (querySelector (0, 0) (tiles (snd (loadMapFromFile decimalEngine (createMapJSON g) ?n)))) =
       Some ([], [])"
    by (simp only: after option.map) (simp add: createTile_def)
  from d before returned lost show ?thesis
    by simp
qed

text \<open>
  C2, amended. Let g be a grid with the tiles of an R by C editor, and let the selector
  engine read the selectors of decimal coordinates as browsers do. Importing the export
  of g into a new R by C editor ends without an exception and leaves that editor with
  these tiles, one for each tile of g in order: where the tile of g has no position or
  the position \<open>0% 0%\<close>, the tile as it was created, with no background; where it has
  another position, the tile with \<open>url(sheet)\<close> as background at exactly that
  position. So every tile that shows the sheet at a position other than \<open>0% 0%\<close> is
  reproduced, every tile that shows nothing stays empty, and the export of the result is
  the export of g. For any engine: a record whose position is \<open>0% 0%\<close>, or whose
  selector finds no tile, writes nothing, the callback returning the tiles as they are
  unless the selector throws; and an import, whether or not it ends with an exception,
  leaves the history stack and its cursor as they are.
\<close>

theorem export_import_roundtrip:
  assumes "map tileCoords (tiles g) = gridCoords R C" and "matchesDecimal engine"
  shows "loadMapFromFile engine (createMapJSON g) (init R C sheet) =
           (None, (init R C sheet)
              \<lparr>tiles := map (\<lambda>t. if backgroundPosition t = [] \<or> backgroundPosition t = ''0% 0%''
                                  then \<lparr>data_row = data_row t, data_col = data_col t,
                                        background = [], backgroundPosition = [],
                                        selected = False\<rparr>
                                  else \<lparr>data_row = data_row t, data_col = data_col t,
                                        background = ''url('' @ sheet @ '')'',
                                        backgroundPosition = backgroundPosition t,
                                        selected = False\<rparr>)
                          (tiles g)\<rparr>) \<and>
         createMapJSON (snd (loadMapFromFile engine (createMapJSON g) (init R C sheet))) =
           createMapJSON g \<and>
         (et_bgPosition r = ''0% 0%'' \<or>
          anyEngine (tileSelector (et_col r) (et_row r)) ts = Inr None \<longrightarrow>
            importTile anyEngine anySheet r ts =
              (case anyEngine (tileSelector (et_col r) (et_row r)) ts of
                 Inl e \<Rightarrow> Inl e
               | Inr found \<Rightarrow> Inr ts)) \<and>
         history (snd (loadMapFromFile anyEngine mapData s)) = history s \<and>
         currentHistoryIndex (snd (loadMapFromFile anyEngine mapData s)) = currentHistoryIndex s"
proof -
  let ?F = "\<lambda>t. if computedBackgroundPosition t = ''0% 0%''
                then createTile (tileCoords t)
                else (createTile (tileCoords t))\<lparr>background := url sheet,
                       backgroundPosition := computedBackgroundPosition t\<rparr>"
  let ?G = "\<lambda>t. if backgroundPosition t = [] \<or> backgroundPosition t = ''0% 0%''
                then \<lparr>data_row = data_row t, data_col = data_col t,
                      background = [], backgroundPosition = [], selected = False\<rparr>
                else \<lparr>data_row = data_row t, data_col = data_col t,
                      background = ''url('' @ sheet @ '')'',
                      backgroundPosition = backgroundPosition t, selected = False\<rparr>"
  have FG: "?F t = ?G t" for t
    by (simp add: computedBackgroundPosition_def createTile_def tileCoords_def url_def)
  have load: "loadMapFromFile engine (createMapJSON g) (init R C sheet) =
                (None, (init R C sheet)\<lparr>tiles := map ?G (tiles g)\<rparr>)"
    using imported_grid [OF assms, of sheet] by (simp only: FG)
  have "createMapJSON (snd (loadMapFromFile engine (createMapJSON g) (init R C sheet))) =
        map (\<lambda>(index, t). exportTile index t) (enumerate 0 (map ?G (tiles g)))"
    unfolding load by (simp add: createMapJSON_exportTile)
  also have "\<dots> = map (\<lambda>(index, t). exportTile index t) (enumerate 0 (tiles g))"
    by (rule export_cong) (simp add: computedBackgroundPosition_def tileCoords_def)
  finally have export: "createMapJSON (snd (loadMapFromFile engine (createMapJSON g) (init R C sheet))) =
        createMapJSON g"
    by (simp only: createMapJSON_exportTile)
  from load export importTile_skips [of r anyEngine ts anySheet]
    history_loadMapFromFile [of anyEngine mapData s]
  show ?thesis
    by blast
qed

theorem export_import_roundtrip_witness:
  "loadMapFromFile decimalEngine
     (createMapJSON ((init 1 2 ''s.png'')
        \<lparr>tiles := [\<lparr>data_row = 0, data_col = 0, background = ''transparent'',
                    backgroundPosition = ''0% 0%'', selected = False\<rparr>,
                   \<lparr>data_row = 0, data_col = 1, background = ''url(s.png)'',
                    backgroundPosition = ''-49px -1px'', selected = True\<rparr>]\<rparr>))
     (init 1 2 ''s.png'') =
   (None, (init 1 2 ''s.png'')
      \<lparr>tiles := [\<lparr>data_row = 0, data_col = 0, background = [],
                  backgroundPosition = [], selected = False\<rparr>,
                 \<lparr>data_row = 0, data_col = 1, background = ''url(s.png)'',
                  backgroundPosition = ''-49px -1px'', selected = False\<rparr>]\<rparr>) \<and>
   importTile decimalEngine ''s.png''
     \<lparr>et_id = 0, et_bgPosition = ''-1px -1px'', et_col = ''7'', et_row = ''0''\<rparr>
     [createTile (0, 0), createTile (0, 1)] = Inr [createTile (0, 0), createTile (0, 1)] \<and>
   importTile decimalEngine ''s.png''
     \<lparr>et_id = 1, et_bgPosition = ''0% 0%'', et_col = ''1'', et_row = ''0''\<rparr>
     [createTile (0, 0), createTile (0, 1)] = Inr [createTile (0, 0), createTile (0, 1)]"
proof -
  let ?g = "(init 1 2 ''s.png'')
        \<lparr>tiles := [\<lparr>data_row = 0, data_col = 0, background = ''transparent'',
                    backgroundPosition = ''0% 0%'', selected = False\<rparr>,
                   \<lparr>data_row = 0, data_col = 1, background = ''url(s.png)'',
                    backgroundPosition = ''-49px -1px'', selected = True\<rparr>]\<rparr>"
  let ?ts = "[createTile (0, 0), createTile (0, 1)]"
  let ?r7 = "\<lparr>et_id = 0, et_bgPosition = ''-1px -1px'', et_col = ''7'', et_row = ''0''\<rparr>"
  let ?r1 = "\<lparr>et_id = 1, et_bgPosition = ''0% 0%'', et_col = ''1'', et_row = ''0''\<rparr>"
  have grid: "map tileCoords (tiles ?g) = gridCoords 1 2"
    by (simp add: gridCoords_def upto_rec1 tileCoords_def)
  have none: "decimalEngine (tileSelector ''7'' ''0'') ?ts = Inr None"
    by (simp add: decimalEngine_def tileSelector_def createTile_def toString_0_1)
  note at7 = export_import_roundtrip [OF grid matchesDecimal_decimalEngine,
        where sheet = "''s.png''" and r = ?r7 and anyEngine = decimalEngine and ts = ?ts
          and anySheet = "''s.png''" and mapData = "[]" and s = "init 1 2 ''s.png''"]
  note at1 = export_import_roundtrip [OF grid matchesDecimal_decimalEngine,
        where sheet = "''s.png''" and r = ?r1 and anyEngine = decimalEngine and ts = ?ts
          and anySheet = "''s.png''" and mapData = "[]" and s = "init 1 2 ''s.png''"]
  from at7 have tiles: "loadMapFromFile decimalEngine (createMapJSON ?g) (init 1 2 ''s.png'') =
     (None, (init 1 2 ''s.png'')
        \<lparr>tiles := [\<lparr>data_row = 0, data_col = 0, background = [],
                    backgroundPosition = [], selected = False\<rparr>,
                   \<lparr>data_row = 0, data_col = 1, background = ''url(s.png)'',
                    backgroundPosition = ''-49px -1px'', selected = False\<rparr>]\<rparr>)"
    by simp
  from at7 none have unmatched: "importTile decimalEngine ''s.png'' ?r7 ?ts = Inr ?ts"
    by simp
  from at1 have sentinel: "importTile decimalEngine ''s.png'' ?r1 ?ts = Inr ?ts"
    by (simp add: decimalEngine_def)
  from tiles unmatched sentinel show ?thesis
    by (intro conjI)
qed

section \<open>Reachable states\<close>

lemma coords_fold_updateTile:
  "(\<And>t. tileCoords (f t) = tileCoords t) \<Longrightarrow>
   map tileCoords (fold (\<lambda>rc. updateTile rc f) rcs ts) = map tileCoords ts"
  by (induction rcs arbitrary: ts) (simp_all add: coords_updateTile)

lemma coords_fold_applyTileData [simp]:
  "map tileCoords (fold (\<lambda>d. applyTileData (k d) d) ds ts) = map tileCoords ts"
  by (simp add: fold_applyTileData comp_def)

lemma coords_importTile:
  "importTile engine sheet r ts = Inr ts' \<Longrightarrow> map tileCoords ts' = map tileCoords ts"
  by (auto simp: importTile_def coords_updateTile split: sum.splits option.splits if_splits)

lemma coords_forEach_importTile [simp]:
  "map tileCoords (snd (forEach_importTile engine sheet rs ts)) = map tileCoords ts"
proof (induction rs arbitrary: ts)
  case Nil
  show ?case by simp
next
  case (Cons r rs)
  show ?case
  proof (cases "importTile engine sheet r ts")
    case (Inl e)
    then show ?thesis by simp
  next
    case (Inr ts')
    with Cons [of ts'] coords_importTile [OF Inr] show ?thesis
      by simp
  qed
qed

lemma tiles_loadMapFromFile:
  "snd (loadMapFromFile engine mapData s) =
     s\<lparr>tiles := snd (forEach_importTile engine (sprites s) mapData (tiles s))\<rparr>"
  by (simp add: loadMapFromFile_def split: prod.splits)

lemma snapshot_keys: "map (\<lambda>d. (row d, col d)) (map tileState ts) = map tileCoords ts"
  by (simp add: tileState_def tileCoords_def comp_def)

lemma snapshot_keys_comp: "map ((\<lambda>d. (row d, col d)) \<circ> tileState) ts = map tileCoords ts"
  by (simp add: tileState_def tileCoords_def comp_def)

lemma set_slice0: "set (slice0 xs e) \<subseteq> set xs"
  by (auto simp: slice0_def dest: in_set_takeD)

text \<open>Committing a snapshot keeps the invariant; so does any change of the tiles' styles.\<close>

lemma editorInv_addToHistory: "editorInv s \<Longrightarrow> editorInv (addToHistory s)"
proof -
  assume inv: "editorInv s"
  then have grid: "map tileCoords (tiles s) = gridCoords (mapRowsCount s) (mapColsCount s)"
    by (simp add: editorInv_def wellFormed_def)
  have "snapshotsOfGrid (addToHistory s)"
    using inv set_slice0 [of "history s" "currentHistoryIndex s + 1"]
    by (auto simp: editorInv_def snapshotsOfGrid_def addToHistory_def Let_def snapshot_keys_comp
        grid)
  moreover have "wellFormed (addToHistory s)"
    using inv by (simp add: editorInv_def wellFormed_def)
  moreover have "clipboardFunctional (coppiedTileData (addToHistory s))"
    "beforePasteState (addToHistory s) = []"
    "mouseDown (addToHistory s) \<longrightarrow> dragStartPosition (addToHistory s) \<noteq> None"
    using inv by (simp_all add: editorInv_def addToHistory_def Let_def)
  ultimately show ?thesis
    by (simp add: editorInv_def historyInv_addToHistory)
qed

lemma editorInv_tiles:
  assumes "editorInv s" and "map tileCoords ts = map tileCoords (tiles s)"
  shows "editorInv (s\<lparr>tiles := ts\<rparr>)"
  using assms by (simp add: editorInv_def historyInv_def wellFormed_def snapshotsOfGrid_def)

lemma editorInv_init: "editorInv (init R C sheet)"
  by (simp add: editorInv_def historyInv_init wellFormed_def snapshotsOfGrid_def
      clipboardFunctional_def) (simp add: init_def)

lemma editorInv_frame:
  assumes "editorInv s"
    and "history s' = history s" and "currentHistoryIndex s' = currentHistoryIndex s"
    and "mapRowsCount s' = mapRowsCount s" and "mapColsCount s' = mapColsCount s"
    and "map tileCoords (tiles s') = map tileCoords (tiles s)"
    and "set (selectedTiles s') \<subseteq> set (selectedTiles s) \<union> tileCoords ` set (tiles s)"
    and "clipboardFunctional (coppiedTileData s')"
    and "mouseDown s' \<longrightarrow> dragStartPosition s' \<noteq> None"
    and "beforePasteState s' = []"
  shows "editorInv s'"
proof -
  from assms(1) have grid: "map tileCoords (tiles s) = gridCoords (mapRowsCount s) (mapColsCount s)"
    and sel: "set (selectedTiles s) \<subseteq> set (gridCoords (mapRowsCount s) (mapColsCount s))"
    by (simp_all add: editorInv_def wellFormed_def)
  from grid have "tileCoords ` set (tiles s) = set (gridCoords (mapRowsCount s) (mapColsCount s))"
    by (metis list.set_map)
  with assms(7) sel
  have "set (selectedTiles s') \<subseteq> set (gridCoords (mapRowsCount s) (mapColsCount s))"
    by blast
  with assms grid show ?thesis
    by (simp add: editorInv_def historyInv_def wellFormed_def snapshotsOfGrid_def)
qed

lemma frame_selectTiles_more [simp]:
  "mouseDown (selectTiles layout selecting s) = mouseDown s"
  "dragStartPosition (selectTiles layout selecting s) = dragStartPosition s"
  "beforePasteState (selectTiles layout selecting s) = beforePasteState s"
  by (simp_all add: selectTiles_def Let_def split: option.splits)

lemma selectedTiles_selectTiles:
  "set (selectedTiles (selectTiles layout selecting s)) \<subseteq>
     set (selectedTiles s) \<union> tileCoords ` set (tiles s)"
  by (auto simp: selectTiles_def Let_def snd_selectLoop split: option.splits)

lemma editorInv_selectTiles: "editorInv s \<Longrightarrow> editorInv (selectTiles layout selecting s)"
  by (rule editorInv_frame [where s = s])
    (simp_all add: selectedTiles_selectTiles, simp_all add: editorInv_def)

lemma editorInv_mousePosition: "editorInv s \<Longrightarrow> editorInv (s\<lparr>mousePosition := p\<rparr>)"
  by (rule editorInv_frame [where s = s]) (simp_all add: editorInv_def)

lemma editorInv_mousemove:
  assumes "editorInv s" and "mousemove layout p s = Inr s'"
  shows "editorInv s'"
proof (cases "mouseDown s")
  case True
  with assms(2) have "s' = selectTiles layout True (s\<lparr>mousePosition := p\<rparr>)"
    by (simp add: mousemove_def split: option.splits)
  with assms(1) show ?thesis
    by (simp add: editorInv_selectTiles editorInv_mousePosition)
next
  case False
  with assms(2) have "s' = s\<lparr>mousePosition := p\<rparr>"
    by (simp add: mousemove_def)
  with assms(1) show ?thesis
    by (simp add: editorInv_mousePosition)
qed

lemma mousemove_total: "editorInv s \<Longrightarrow> \<exists>s'. mousemove layout p s = Inr s'"
  by (auto simp: editorInv_def mousemove_def Let_def split: option.splits)

lemma editorInv_mousedown: "editorInv s \<Longrightarrow> editorInv (mousedown s)"
  by (rule editorInv_frame [where s = s])
    (simp_all, auto simp: mousedown_def editorInv_def)

lemma editorInv_mouseup: "editorInv s \<Longrightarrow> editorInv (mouseup layout s)"
  unfolding mouseup_def
  by (rule editorInv_selectTiles, rule editorInv_frame [where s = s]) (simp_all add: editorInv_def)

lemma editorInv_mouseover: "editorInv s \<Longrightarrow> editorInv (mouseover rc s)"
  by (rule editorInv_frame [where s = s]) (simp_all add: editorInv_def mouseover_def)

lemma editorInv_autoCheckbox: "editorInv s \<Longrightarrow> editorInv (autoCheckbox_change checked s)"
  by (rule editorInv_frame [where s = s]) (simp_all add: editorInv_def autoCheckbox_change_def)

lemma editorInv_keydown_modifier: "editorInv s \<Longrightarrow> editorInv (keydown_modifier s)"
  by (rule editorInv_frame [where s = s]) (simp_all add: editorInv_def keydown_modifier_def)

lemma editorInv_keyup: "editorInv s \<Longrightarrow> editorInv (keyup metaKey ctrlKey s)"
  by (rule editorInv_frame [where s = s]) (simp_all add: editorInv_def keyup_def)

lemma editorInv_copySelected: "editorInv s \<Longrightarrow> editorInv (copySelected s)"
  by (rule editorInv_frame [where s = s])
    (simp_all add: clipboardFunctional_copySelected,
     simp_all add: editorInv_def copySelected_def coords_fold_updateTile)

lemma editorInv_keydown_Delete: "editorInv s \<Longrightarrow> editorInv (keydown_Delete s)"
  unfolding keydown_Delete_def
  by (rule editorInv_addToHistory, rule editorInv_frame [where s = s])
    (simp_all add: editorInv_def coords_fold_updateTile)

lemma editorInv_cutSelected: "editorInv s \<Longrightarrow> editorInv (cutSelected s)"
  unfolding cutSelected_def Let_def
  by (rule editorInv_addToHistory, rule editorInv_tiles, rule editorInv_copySelected)
    (simp_all add: coords_fold_updateTile)

lemma editorInv_paste: "editorInv s \<Longrightarrow> editorInv (paste s)"
  by (auto simp: paste_def Let_def split: option.splits
      intro!: editorInv_addToHistory editorInv_tiles)

lemma editorInv_loadMapFromFile:
  "editorInv s \<Longrightarrow> editorInv (snd (loadMapFromFile engine mapData s))"
  unfolding tiles_loadMapFromFile by (rule editorInv_tiles) simp_all

lemma editorInv_restoreFromHistory:
  assumes "editorInv s" and "restoreFromHistory i (s\<lparr>currentHistoryIndex := i\<rparr>) = Inr s'"
  shows "editorInv s'"
proof -
  from restoreFromHistory_Inr [OF assms(2)]
  have rng: "0 \<le> i" "i < int (length (history s))"
    and eq: "s' = s\<lparr>currentHistoryIndex := i,
               tiles := map (applyAll (\<lambda>d. (row d, col d)) (history s ! nat i)) (tiles s)\<rparr>"
    by simp_all
  from assms(1) rng have "editorInv (s\<lparr>currentHistoryIndex := i\<rparr>)"
    by (simp add: editorInv_def historyInv_def wellFormed_def snapshotsOfGrid_def)
  then show ?thesis
    unfolding eq by (rule editorInv_tiles) (simp add: comp_def)
qed

lemma editorInv_undo: "editorInv s \<Longrightarrow> undo s = Inr s' \<Longrightarrow> editorInv s'"
  by (auto simp: undo_def split: if_splits dest: editorInv_restoreFromHistory)

lemma editorInv_redo: "editorInv s \<Longrightarrow> redo s = Inr s' \<Longrightarrow> editorInv s'"
  by (auto simp: redo_def split: if_splits dest: editorInv_restoreFromHistory)

lemma selectNextTile_nonempty:
  "selectedTiles s \<noteq> [] \<Longrightarrow>
   selectNextTile s =
     (let lastTile = last (selectedTiles s);
          newTile = (if snd lastTile \<ge> mapColsCount s - 1
                     then querySelector (fst lastTile + 1, 0) (tiles s)
                     else querySelector (fst lastTile, snd lastTile + 1) (tiles s))
      in if \<not> (snd lastTile \<ge> mapColsCount s - 1 \<and> fst lastTile \<ge> mapRowsCount s - 1)
         then (case newTile of
                 None \<Rightarrow> Inl TypeError
               | Some t \<Rightarrow>
                   Inr (s\<lparr>tiles := updateTile (tileCoords t) classList_add_selected (tiles s),
                          selectedTiles := [tileCoords t]\<rparr>))
         else Inr (s\<lparr>selectedTiles := []\<rparr>))"
  by (simp add: selectNextTile_def Let_def split: list.split option.split)

lemma selectNextTile_Inr:
  assumes "selectNextTile s = Inr s'"
  shows "s' = s\<lparr>selectedTiles := []\<rparr> \<or>
         (\<exists>t \<in> set (tiles s).
            s' = s\<lparr>tiles := updateTile (tileCoords t) classList_add_selected (tiles s),
                   selectedTiles := [tileCoords t]\<rparr>)"
proof (cases "selectedTiles s = []")
  case True
  with assms show ?thesis
    by (simp add: selectNextTile_def)
next
  case False
  note unfold = selectNextTile_nonempty [OF False]
  let ?l = "last (selectedTiles s)"
  let ?new = "if snd ?l \<ge> mapColsCount s - 1 then querySelector (fst ?l + 1, 0) (tiles s)
              else querySelector (fst ?l, snd ?l + 1) (tiles s)"
  show ?thesis
  proof (cases "snd ?l \<ge> mapColsCount s - 1 \<and> fst ?l \<ge> mapRowsCount s - 1")
    case True
    with assms show ?thesis
      unfolding unfold by (simp add: Let_def)
  next
    case False
    with assms obtain t where t: "?new = Some t"
      and s': "s' = s\<lparr>tiles := updateTile (tileCoords t) classList_add_selected (tiles s),
                      selectedTiles := [tileCoords t]\<rparr>"
      unfolding unfold by (cases ?new) (simp_all add: Let_def)
    from t have "t \<in> set (tiles s)"
      by (auto dest: querySelector_mem split: if_splits)
    with s' show ?thesis
      by blast
  qed
qed

lemma editorInv_selectNextTile:
  assumes "editorInv s" and "selectNextTile s = Inr s'"
  shows "editorInv s'"
  using selectNextTile_Inr [OF assms(2)]
proof (elim disjE bexE)
  assume "s' = s\<lparr>selectedTiles := []\<rparr>"
  then show ?thesis
    by (intro editorInv_frame [OF assms(1)]) (use assms(1) in \<open>simp_all add: editorInv_def\<close>)
next
  fix t assume "t \<in> set (tiles s)"
    and "s' = s\<lparr>tiles := updateTile (tileCoords t) classList_add_selected (tiles s),
                  selectedTiles := [tileCoords t]\<rparr>"
  then show ?thesis
    by (intro editorInv_frame [OF assms(1)])
      (use assms(1) in \<open>simp_all add: editorInv_def coords_updateTile\<close>)
qed

lemma editorInv_drawMap:
  assumes inv: "editorInv s" and run: "drawMap sprite s = Inr s'"
  shows "editorInv s'"
proof (cases "selectedTiles s = []")
  case True
  with run inv show ?thesis
    by (simp add: drawMap_def)
next
  case False
  let ?s1 = "s\<lparr>selectedTiles := sortBy compareTiles (selectedTiles s),
                tiles := fold (\<lambda>rc. updateTile rc (drawTile (sprites s) sprite))
                           (sortBy compareTiles (selectedTiles s)) (tiles s)\<rparr>"
  have inv1: "editorInv ?s1"
    by (rule editorInv_frame [OF inv]) (use inv in \<open>simp_all add: editorInv_def coords_fold_updateTile\<close>)
  show ?thesis
  proof (cases "isAutoEnabled s")
    case True
    with run False obtain s2 where "selectNextTile ?s1 = Inr s2" and "s' = addToHistory s2"
      by (auto simp: drawMap_def Let_def split: sum.splits)
    with inv1 show ?thesis
      by (auto intro: editorInv_addToHistory editorInv_selectNextTile)
  next
    case auto: False
    have "editorInv (?s1\<lparr>selectedTiles := []\<rparr>)"
      by (rule editorInv_frame [OF inv1]) (use inv1 in \<open>simp_all add: editorInv_def\<close>)
    with run False auto show ?thesis
      by (auto simp: drawMap_def Let_def intro: editorInv_addToHistory)
  qed
qed

lemma reachable_editorInv: "reachable s \<Longrightarrow> editorInv s"
proof (induction rule: reachable.induct)
  case (new R C sheet)
  show ?case by (rule editorInv_init)
qed (auto intro: editorInv_mousemove editorInv_mousedown editorInv_mouseup editorInv_mouseover
    editorInv_autoCheckbox editorInv_keydown_modifier editorInv_keyup editorInv_keydown_Delete
    editorInv_copySelected editorInv_cutSelected editorInv_paste editorInv_undo editorInv_redo
    editorInv_drawMap editorInv_loadMapFromFile)

section \<open>No handler throws; the marker under the other handlers\<close>

lemma drawMap_total:
  assumes "editorInv s"
  shows "\<exists>s'. drawMap p s = Inr s'"
proof (cases "isAutoEnabled s \<and> selectedTiles s \<noteq> []")
  case True
  moreover from assms have "wellFormed s"
    by (simp add: editorInv_def)
  ultimately show ?thesis
    using drawMap_auto_grid [of s p] by blast
next
  case False
  then show ?thesis
    by (auto simp: drawMap_def Let_def)
qed

text \<open>
  No handler throws in a reachable state: the reads of \<open>dragStartPosition\<close>, of
  \<open>history[index]\<close> and of the next tile all find what they look for.
\<close>

lemma reachable_no_TypeError:
  assumes "reachable s"
  shows "(\<exists>s'. drawMap p s = Inr s') \<and> (\<exists>s'. undo s = Inr s') \<and> (\<exists>s'. redo s = Inr s') \<and>
         (\<exists>s'. mousemove layout q s = Inr s')"
proof -
  from assms have inv: "editorInv s"
    by (rule reachable_editorInv)
  then have "historyInv s"
    by (simp add: editorInv_def)
  with inv show ?thesis
    using drawMap_total [of s p] undo_total [of s] redo_total [of s] mousemove_total [of s layout q]
    by blast
qed

lemma reachable_historyInv: "reachable s \<Longrightarrow> historyInv s"
  by (drule reachable_editorInv) (simp add: editorInv_def)

lemma reachable_cursorValid: "reachable s \<Longrightarrow> cursorValid s"
  by (rule historyInv_cursorValid, rule reachable_historyInv)

lemma reachable_wellFormed: "reachable s \<Longrightarrow> wellFormed s"
  by (drule reachable_editorInv) (simp add: editorInv_def)

lemma reachable_clipboardFunctional: "reachable s \<Longrightarrow> clipboardFunctional (coppiedTileData s)"
  by (drule reachable_editorInv) (simp add: editorInv_def)

lemma reachable_gridSnapshot:
  assumes "reachable s" and "snap \<in> set (history s)"
  shows "gridSnapshot (tiles s) snap"
proof -
  from assms(1) have inv: "editorInv s"
    by (rule reachable_editorInv)
  then have grid: "map tileCoords (tiles s) = gridCoords (mapRowsCount s) (mapColsCount s)"
    by (simp add: editorInv_def wellFormed_def)
  from inv assms(2) have "map (\<lambda>d. (row d, col d)) snap = gridCoords (mapRowsCount s) (mapColsCount s)"
    by (simp add: editorInv_def snapshotsOfGrid_def)
  with grid show ?thesis
    by (simp add: gridSnapshot_def distinct_gridCoords)
qed

text \<open>
  The marker and the selection set under the other handlers. A handler that leaves both
  the classes and \<open>selectedTiles\<close> alone keeps the equivalence; so do the \<open>Delete\<close> key
  and \<open>drawMap\<close>, which remove the marker of each selected tile and reset the set.
\<close>

lemma markerIffSelected_cong:
  assumes "map (\<lambda>t. (tileCoords t, selected t)) (tiles s') =
           map (\<lambda>t. (tileCoords t, selected t)) (tiles s)"
    and "selectedTiles s' = selectedTiles s"
  shows "markerIffSelected s' \<longleftrightarrow> markerIffSelected s"
proof -
  have char: "markerIffSelected u \<longleftrightarrow>
        list_all (\<lambda>(rc, m). m \<longleftrightarrow> rc \<in> set (selectedTiles u))
          (map (\<lambda>t. (tileCoords t, selected t)) (tiles u))" for u
    by (simp add: markerIffSelected_def list_all_iff)
  show ?thesis
    by (simp only: char assms)
qed

lemma markerIffSelected_paste: "markerIffSelected (paste s) \<longleftrightarrow> markerIffSelected s"
  by (rule markerIffSelected_cong)
    (auto simp: paste_def Let_def fold_applyTileData split: option.splits)

lemma markerIffSelected_loadMapFromFile:
  "markerIffSelected (snd (loadMapFromFile engine mapData s)) \<longleftrightarrow> markerIffSelected s"
proof (rule markerIffSelected_cong)
  have one: "map (\<lambda>t. (tileCoords t, selected t)) ts' =
             map (\<lambda>t. (tileCoords t, selected t)) ts"
    if "importTile engine sheet r ts = Inr ts'" for sheet r ts ts'
    using that
    by (auto simp: importTile_def updateTile_def set_background_def set_backgroundPosition_def
        tileCoords_def split: sum.splits option.splits if_splits)
  have "map (\<lambda>t. (tileCoords t, selected t)) (snd (forEach_importTile engine sheet rs ts)) =
        map (\<lambda>t. (tileCoords t, selected t)) ts" for sheet rs ts
  proof (induction rs arbitrary: ts)
    case Nil
    show ?case by simp
  next
    case (Cons r rs)
    show ?case
    proof (cases "importTile engine sheet r ts")
      case (Inl e)
      then show ?thesis by simp
    next
      case (Inr ts')
      with Cons [of ts'] one [OF Inr] show ?thesis
        by simp
    qed
  qed
  then show "map (\<lambda>t. (tileCoords t, selected t)) (tiles (snd (loadMapFromFile engine mapData s))) =
             map (\<lambda>t. (tileCoords t, selected t)) (tiles s)"
    by (simp add: tiles_loadMapFromFile)
qed (simp add: tiles_loadMapFromFile)

lemma markerIffSelected_undo_redo:
  assumes "undo s = Inr s' \<or> redo s = Inr s'"
  shows "markerIffSelected s' \<longleftrightarrow> markerIffSelected s"
proof -
  have step: "markerIffSelected s' \<longleftrightarrow> markerIffSelected s"
    if "restoreFromHistory i (s\<lparr>currentHistoryIndex := i\<rparr>) = Inr s'" for i
  proof (rule markerIffSelected_cong)
    from restoreFromHistory_Inr [OF that]
    have eq: "s' = s\<lparr>currentHistoryIndex := i,
               tiles := map (applyAll (\<lambda>d. (row d, col d)) (history s ! nat i)) (tiles s)\<rparr>"
      by simp
    show "map (\<lambda>t. (tileCoords t, selected t)) (tiles s') =
          map (\<lambda>t. (tileCoords t, selected t)) (tiles s)"
      unfolding eq by (simp add: comp_def)
    show "selectedTiles s' = selectedTiles s"
      unfolding eq by simp
  qed
  from assms show ?thesis
    by (auto simp: undo_def redo_def split: if_splits dest: step)
qed

lemma markerIffSelected_keydown_Delete:
  assumes "markerIffSelected s"
  shows "markerIffSelected (keydown_Delete s)"
proof -
  let ?f = "\<lambda>t. classList_remove_selected (set_background ''transparent'' t)"
  have "fold (\<lambda>rc. updateTile rc ?f) (selectedTiles s) (tiles s) =
        map (\<lambda>t. if tileCoords t \<in> set (selectedTiles s) then ?f t else t) (tiles s)"
    by (rule fold_updateTile)
      (simp_all add: classList_remove_selected_def set_background_def tileCoords_def)
  with assms show ?thesis
    by (auto simp: keydown_Delete_def markerIffSelected_def classList_remove_selected_def)
qed

lemma markerIffSelected_drawMap:
  assumes inv: "markerIffSelected s" and run: "drawMap p s = Inr s'"
  shows "markerIffSelected s'"
proof (cases "selectedTiles s = []")
  case True
  with run inv show ?thesis
    by (simp add: drawMap_def)
next
  case False
  define drawn where "drawn = map (\<lambda>t. if tileCoords t \<in> set (selectedTiles s)
                                         then drawTile (sprites s) p t else t) (tiles s)"
  let ?s1 = "s\<lparr>selectedTiles := sortBy compareTiles (selectedTiles s), tiles := drawn\<rparr>"
  have unmarked: "\<not> selected t" if "t \<in> set drawn" for t
    using that inv unfolding drawn_def
    by (auto simp: markerIffSelected_def drawTile_def classList_remove_selected_def)
  have none: "markerIffSelected (?s1\<lparr>selectedTiles := []\<rparr>)"
    using unmarked by (simp add: markerIffSelected_def)
  show ?thesis
  proof (cases "isAutoEnabled s")
    case auto: False
    with run False have "s' = addToHistory (?s1\<lparr>selectedTiles := []\<rparr>)"
      by (simp add: drawMap_def Let_def fold_draw drawn_def)
    with none show ?thesis
      by (simp add: markerIffSelected_def)
  next
    case True
    with run False obtain s2 where nxt: "selectNextTile ?s1 = Inr s2" and s': "s' = addToHistory s2"
      by (auto simp: drawMap_def Let_def fold_draw drawn_def split: sum.splits)
    from selectNextTile_Inr [OF nxt] have "markerIffSelected s2"
    proof (elim disjE bexE)
      assume "s2 = ?s1\<lparr>selectedTiles := []\<rparr>"
      with none show ?thesis
        by simp
    next
      fix t assume "s2 = ?s1\<lparr>tiles := updateTile (tileCoords t) classList_add_selected (tiles ?s1),
                                 selectedTiles := [tileCoords t]\<rparr>"
      then have sel: "selectedTiles s2 = [tileCoords t]"
        and ts: "tiles s2 = updateTile (tileCoords t) classList_add_selected drawn"
        by simp_all
      show ?thesis
        unfolding markerIffSelected_def sel ts
      proof
        fix u assume "u \<in> set (updateTile (tileCoords t) classList_add_selected drawn)"
        then obtain v where v: "v \<in> set drawn"
          and u: "u = (if tileCoords v = tileCoords t then classList_add_selected v else v)"
          by (auto simp: updateTile_def)
        from unmarked [OF v] have "\<not> selected v" .
        with u show "selected u \<longleftrightarrow> tileCoords u \<in> set [tileCoords t]"
          by (simp add: classList_add_selected_def tileCoords_def)
      qed
    qed
    with s' show ?thesis
      by (simp add: markerIffSelected_def)
  qed
qed

section \<open>The palette; undo followed by redo\<close>

text \<open>
  The positions the palette hands to \<open>drawMap\<close> start with a minus sign, so none of them
  is the position \<open>0% 0%\<close> that import skips; the first one is \<open>-1px -1px\<close>.
\<close>

lemma spritePosition_not_sentinel: "spritePosition i j \<noteq> ''0% 0%''"
  by (simp add: spritePosition_def)

lemma spritePosition_first: "spritePosition 0 0 = ''-1px -1px''"
  by code_simp

lemma sprite_onclick_first: "sprite_onclick 0 0 s = drawMap ''-1px -1px'' s"
  by (simp add: sprite_onclick_def spritePosition_first)

text \<open>
  Within the stack, undo and redo are inverse to each other on reachable states whose
  grid is the snapshot at the cursor, as it is right after a commit, an undo or a redo
  (an import changes the grid and commits nothing): an undo that moves the cursor is
  taken back by the redo that follows, as far as the tiles' styles, the history and the
  cursor go.
\<close>

lemma undo_then_redo:
  assumes r: "reachable s" and u: "undo s = Inr s'" and moved: "0 < currentHistoryIndex s"
    and cur: "map tileState (tiles s) = history s ! nat (currentHistoryIndex s)"
  shows "\<exists>s''. redo s' = Inr s'' \<and> map tileState (tiles s'') = map tileState (tiles s) \<and>
           currentHistoryIndex s'' = currentHistoryIndex s \<and> history s'' = history s"
proof -
  from r have inv: "editorInv s"
    by (rule reachable_editorInv)
  then have hinv: "historyInv s"
    by (simp add: editorInv_def)
  with moved have rng: "currentHistoryIndex s < int (length (history s))"
    by (auto simp: historyInv_def)
  from u moved have r1: "restoreFromHistory (currentHistoryIndex s - 1)
      (s\<lparr>currentHistoryIndex := currentHistoryIndex s - 1\<rparr>) = Inr s'"
    by (simp add: undo_def)
  from restoreFromHistory_Inr [OF r1]
  have s': "s' = s\<lparr>currentHistoryIndex := currentHistoryIndex s - 1,
      tiles := map (applyAll (\<lambda>d. (row d, col d)) (history s ! nat (currentHistoryIndex s - 1)))
                 (tiles s)\<rparr>"
    by simp
  have r': "reachable s'"
    using r u by (rule reachable.undo)
  let ?snap = "history s ! nat (currentHistoryIndex s)"
  from rng moved have mem: "?snap \<in> set (history s')"
    by (simp add: s')
  from reachable_gridSnapshot [OF r' mem] have g: "gridSnapshot (tiles s') ?snap" .
  have idx: "currentHistoryIndex s' = currentHistoryIndex s - 1" and h: "history s' = history s"
    by (simp_all add: s')
  from rng moved have "\<not> currentHistoryIndex s' \<ge> int (length (history s')) - 1"
    by (simp add: idx h)
  then have redo: "redo s' = restoreFromHistory (currentHistoryIndex s)
      (s'\<lparr>currentHistoryIndex := currentHistoryIndex s\<rparr>)"
    by (simp add: redo_def idx)
  from rng moved have ok: "0 \<le> currentHistoryIndex s \<and>
      currentHistoryIndex s < int (length (history (s'\<lparr>currentHistoryIndex := currentHistoryIndex s\<rparr>)))"
    by (simp add: h)
  let ?s'' = "s'\<lparr>currentHistoryIndex := currentHistoryIndex s,
      tiles := fold (\<lambda>d. applyTileData (row d, col d) d) ?snap (tiles s')\<rparr>"
  have run: "redo s' = Inr ?s''"
    unfolding redo using ok by (simp add: restoreFromHistory_def h)
  from g have "map tileState (fold (\<lambda>d. applyTileData (row d, col d) d) ?snap (tiles s')) = ?snap"
    by (simp add: gridSnapshot_def restore_exact)
  with run cur h show ?thesis
    by simp
qed


end
